theory Spec2Isabelle
  imports Complex_Main
begin

text \<open>
  The word validation of Trivia Tiles: the hook \<open>usePuzzleValidation\<close>
  (\<open>client/components/hooks/usePuzzleValidation.ts\<close>) with its dictionary cache, its
  remote check with timeout, retry and cancellation, and the progress derived from the
  found words (\<open>client/components/AppContent.tsx\<close>). Line numbers are those of the
  hook's file unless another file is named.

  The hook is modelled twice. \<open>validateWord\<close> and \<open>checkDictionaryAPI\<close> are the functions
  of the source run to completion, one call after the other. The events \<open>Submit\<close>,
  \<open>Settle\<close> and \<open>Wake\<close> split a call at the points where it is suspended, so that
  calls can overlap. Both are built from the same pieces, and a call run to completion
  is the run of its events (\<open>validateWord_is_run\<close>).
\<close>

section \<open>Strings\<close>

text \<open>
  JavaScript strings are modelled as \<^typ>\<open>string\<close>, restricted to ASCII: \<open>length\<close> is
  \<open>String.prototype.length\<close>, \<open>trim\<close> strips the ASCII white space and line terminators
  at both ends, \<open>toLowerCase\<close> and \<open>toUpperCase\<close> map the 26 letters.
\<close>

definition isWhiteSpace :: "char \<Rightarrow> bool" where
  "isWhiteSpace c = (c \<in> set [CHR 0x20, CHR 0x09, CHR 0x0A, CHR 0x0B, CHR 0x0C, CHR 0x0D])"

definition trim :: "string \<Rightarrow> string" where
  "trim s = rev (dropWhile isWhiteSpace (rev (dropWhile isWhiteSpace s)))"

definition upperLetters :: string where
  "upperLetters = ''ABCDEFGHIJKLMNOPQRSTUVWXYZ''"

definition lowerLetters :: string where
  "lowerLetters = ''abcdefghijklmnopqrstuvwxyz''"

definition lowerChar :: "char \<Rightarrow> char" where
  "lowerChar c = (case map_of (zip upperLetters lowerLetters) c of Some l \<Rightarrow> l | None \<Rightarrow> c)"

definition upperChar :: "char \<Rightarrow> char" where
  "upperChar c = (case map_of (zip lowerLetters upperLetters) c of Some u \<Rightarrow> u | None \<Rightarrow> c)"

definition toLowerCase :: "string \<Rightarrow> string" where
  "toLowerCase s = map lowerChar s"

definition toUpperCase :: "string \<Rightarrow> string" where
  "toUpperCase s = map upperChar s"

text \<open>\<open>s.includes(t)\<close>: \<open>t\<close> occurs in \<open>s\<close> as a contiguous substring.\<close>

primrec str_includes :: "string \<Rightarrow> string \<Rightarrow> bool" where
  "str_includes [] t = (t = [])"
| "str_includes (c # s) t = (take (length t) (c # s) = t \<or> str_includes s t)"

text \<open>Decimal rendering of an integer, as a template literal prints it.\<close>

fun string_of_nat :: "nat \<Rightarrow> string" where
  "string_of_nat n =
     (if n < 10 then [''0123456789'' ! n]
      else string_of_nat (n div 10) @ [''0123456789'' ! (n mod 10)])"

declare string_of_nat.simps [simp del]

definition string_of_int :: "int \<Rightarrow> string" where
  "string_of_int i =
     (if i < 0 then CHR ''-'' # string_of_nat (nat (- i)) else string_of_nat (nat i))"

section \<open>Errors and responses\<close>

datatype DictionaryErrorType =
    NETWORK_ERROR | API_RATE_LIMIT | API_UNAVAILABLE | WORD_NOT_FOUND
  | INVALID_RESPONSE | TIMEOUT | UNKNOWN

text \<open>
  A thrown value is either a plain JavaScript error, given by its \<open>name\<close> and \<open>message\<close>,
  or a \<open>DictionaryAPIError\<close> with its \<open>type\<close>, \<open>message\<close> and optional \<open>statusCode\<close>.
\<close>

datatype thrown =
    JsError string string
  | DictionaryAPIError DictionaryErrorType string "nat option"

fun err_name :: "thrown \<Rightarrow> string" where
  "err_name (JsError n m) = n"
| "err_name (DictionaryAPIError t m c) = ''DictionaryAPIError''"

fun err_message :: "thrown \<Rightarrow> string" where
  "err_message (JsError n m) = m"
| "err_message (DictionaryAPIError t m c) = m"

fun err_statusCode :: "thrown \<Rightarrow> nat option" where
  "err_statusCode (JsError n m) = None"
| "err_statusCode (DictionaryAPIError t m c) = c"

text \<open>
  The parsed body of a response: an array, each element given by its \<open>word\<close> property
  (\<open>None\<close> when \<open>data[i]?.word\<close> is \<open>undefined\<close>), or any other JSON value.
\<close>

datatype json = JArray "string option list" | JOther

text \<open>A \<open>Response\<close>: \<open>ok\<close>, \<open>status\<close>, and what \<open>await response.json()\<close> gives.\<close>

record response =
  ok :: bool
  status :: nat
  json_body :: "thrown + json"

text \<open>
  What reading \<open>error.name\<close> throws when \<open>error\<close> is \<open>null\<close> (the text is V8's; the
  other engines word it differently, none of them with the word \<open>fetch\<close>).
\<close>

definition nullNameError :: thrown where
  "nullNameError =
     JsError ''TypeError''
       (''Cannot read properties of null (reading '' @ [CHR 0x27] @ ''name'' @ [CHR 0x27] @ '')'')"

text \<open>
  \<open>getErrorType(error, response)\<close>, lines 142-167. The first test reads \<open>error.name\<close>, so a
  \<open>null\<close> error (\<open>None\<close>) throws.
\<close>

definition getErrorType :: "thrown option \<Rightarrow> response option \<Rightarrow> thrown + DictionaryErrorType" where
  "getErrorType error resp =
     (case error of
        None \<Rightarrow> Inl nullNameError
      | Some e \<Rightarrow>
          if err_name e = ''TypeError'' \<and> str_includes (err_message e) ''fetch'' then Inr NETWORK_ERROR
          else if err_name e = ''AbortError'' \<and> str_includes (err_message e) ''timeout'' then Inr TIMEOUT
          else (case resp of
                  None \<Rightarrow> Inr UNKNOWN
                | Some r \<Rightarrow>
                    if status r = 429 then Inr API_RATE_LIMIT
                    else if 500 \<le> status r then Inr API_UNAVAILABLE
                    else if status r = 404 then Inr WORD_NOT_FOUND
                    else Inr UNKNOWN))"

text \<open>\<open>getErrorMessage(errorType)\<close>, lines 175-192.\<close>

fun getErrorMessage :: "DictionaryErrorType \<Rightarrow> string" where
  "getErrorMessage NETWORK_ERROR = ''No internet connection. Please check your network and try again.''"
| "getErrorMessage API_RATE_LIMIT = ''Too many requests. Please wait a moment and try again.''"
| "getErrorMessage API_UNAVAILABLE = ''Dictionary service is temporarily unavailable. Please try again later.''"
| "getErrorMessage TIMEOUT = ''Request timed out. Please try again.''"
| "getErrorMessage WORD_NOT_FOUND = ''Not a valid English word.''"
| "getErrorMessage INVALID_RESPONSE = ''Received invalid data. Please try again.''"
| "getErrorMessage UNKNOWN = ''Error validating word. Please try again.''"

section \<open>Configuration\<close>

text \<open>\<open>API_CONFIG\<close>, lines 89-95.\<close>

definition TIMEOUT_MS :: nat where "TIMEOUT_MS = 5000"
definition MAX_RETRIES :: nat where "MAX_RETRIES = 2"
definition RETRY_DELAY_MS :: nat where "RETRY_DELAY_MS = 1000"
definition CACHE_SIZE_LIMIT :: nat where "CACHE_SIZE_LIMIT = 1000"

section \<open>Fetch with timeout\<close>

text \<open>
  How one call of \<open>fetch\<close> behaves when left alone: it settles after so many milliseconds,
  rejected (\<open>Inl\<close>) or resolved with a response (\<open>Inr\<close>).
\<close>

datatype fetch_behaviour = Settles nat "thrown + response"

text \<open>The reason the timer callback passes to \<open>abort\<close>: \<open>new Error('timeout')\<close>.\<close>

definition timeoutReason :: thrown where
  "timeoutReason = JsError ''Error'' ''timeout''"

text \<open>
  \<open>fetchWithTimeout(url, options, timeoutMs)\<close>, lines 200-219. A fetch that settles before
  the timer clears it. Otherwise the callback runs: it calls \<open>options.signal.abort\<close> only
  when \<open>'abort' in options.signal\<close> (the first argument here; an \<open>AbortSignal\<close> has no such
  method), and a fetch aborted with a reason rejects with that reason. When the callback
  does nothing the fetch goes on and settles as it would have.
\<close>

definition fetchWithTimeout :: "bool \<Rightarrow> fetch_behaviour \<Rightarrow> nat \<Rightarrow> thrown + response" where
  "fetchWithTimeout signalHasAbort b timeoutMs =
     (case b of Settles t outcome \<Rightarrow>
        if t < timeoutMs then outcome
        else if signalHasAbort then Inl timeoutReason
        else outcome)"

section \<open>The dictionary cache\<close>

text \<open>
  \<open>dictionaryCache\<close> is a JavaScript \<open>Map\<close>: its keys are unique and iterate in insertion
  order, and \<open>set\<close> on a key already present keeps the key's place. It is modelled as an
  association list in that order.
\<close>

type_synonym cache = "(string \<times> bool) list"

definition cache_get :: "cache \<Rightarrow> string \<Rightarrow> bool option" where
  "cache_get c w = map_of c w"

fun cache_set :: "string \<Rightarrow> bool \<Rightarrow> cache \<Rightarrow> cache" where
  "cache_set w v [] = [(w, v)]"
| "cache_set w v ((k, x) # c) = (if k = w then (k, v) # c else (k, x) # cache_set w v c)"

definition cache_delete :: "string \<Rightarrow> cache \<Rightarrow> cache" where
  "cache_delete w c = filter (\<lambda>e. fst e \<noteq> w) c"

text \<open>
  Lines 245-249: at or over the limit, delete the first key the map iterates, unless that
  key is falsy (\<open>if (firstKey)\<close>: the empty string, or \<open>undefined\<close> for an empty map).
\<close>

definition evict :: "cache \<Rightarrow> cache" where
  "evict c =
     (if CACHE_SIZE_LIMIT \<le> length c then
        (case c of
           [] \<Rightarrow> c
         | (firstKey, v) # rest \<Rightarrow> if firstKey = [] then c else cache_delete firstKey c)
      else c)"

section \<open>One remote attempt\<close>

text \<open>
  The \<open>try\<close> block of \<open>checkDictionaryAPI\<close> after the fetch has settled, lines 257-290,
  without the cache write: \<open>Inr isValid\<close> when it reaches \<open>return isValid\<close>, otherwise what
  it throws together with the \<open>response\<close> variable the \<open>catch\<close> block will see. A response
  that is not \<open>ok\<close> calls \<open>getErrorType(null, response)\<close>.
\<close>

definition isValidData :: "string option list \<Rightarrow> bool" where
  "isValidData d = (case d of [] \<Rightarrow> False | x # xs \<Rightarrow> x \<noteq> None)"

definition process_response :: "thrown + response \<Rightarrow> (thrown \<times> response option) + bool" where
  "process_response outcome =
     (case outcome of
        Inl e \<Rightarrow> Inl (e, None)
      | Inr r \<Rightarrow>
          if \<not> ok r then
            (case getErrorType None (Some r) of
               Inl e \<Rightarrow> Inl (e, Some r)
             | Inr errorType \<Rightarrow>
                 Inl (DictionaryAPIError errorType
                        (''API returned status '' @ string_of_nat (status r)) (Some (status r)),
                      Some r))
          else
            (case json_body r of
               Inl e \<Rightarrow> Inl (e, Some r)
             | Inr JOther \<Rightarrow>
                 Inl (DictionaryAPIError INVALID_RESPONSE ''API response is not an array'' None, Some r)
             | Inr (JArray d) \<Rightarrow> Inr (isValidData d)))"

text \<open>
  The \<open>catch\<close> block, lines 291-331: rethrow an abort that is not a timeout, retry a
  retryable kind while \<open>retryCount < MAX_RETRIES\<close>, otherwise throw the user-facing
  \<open>DictionaryAPIError\<close>.
\<close>

datatype catch_outcome = Rethrow thrown | Retry | Fail thrown

definition isDictionaryAPIError :: "thrown \<Rightarrow> bool" where
  "isDictionaryAPIError e = (case e of DictionaryAPIError t m c \<Rightarrow> True | JsError n m \<Rightarrow> False)"

definition retryable :: "DictionaryErrorType list" where
  "retryable = [NETWORK_ERROR, API_UNAVAILABLE, TIMEOUT]"

text \<open>Lines 293 and 441: the error is an abort and not a timeout.\<close>

definition isPlainAbort :: "thrown \<Rightarrow> bool" where
  "isPlainAbort error =
     (err_name error = ''AbortError'' \<and> \<not> str_includes (err_message error) ''timeout'')"

text \<open>Lines 299-301: \<open>errorType\<close>, from the error itself or from \<open>getErrorType\<close>.\<close>

definition errorTypeOf :: "thrown \<Rightarrow> response option \<Rightarrow> thrown + DictionaryErrorType" where
  "errorTypeOf error resp =
     (case error of
        DictionaryAPIError t m c \<Rightarrow> Inr t
      | JsError n m \<Rightarrow> getErrorType (Some error) resp)"

definition catch_block :: "thrown \<Rightarrow> response option \<Rightarrow> nat \<Rightarrow> catch_outcome" where
  "catch_block error resp retryCount =
     (if isPlainAbort error then Rethrow error
      else
        (case errorTypeOf error resp of
           Inl x \<Rightarrow> Rethrow x
         | Inr errorType \<Rightarrow>
             if retryCount < MAX_RETRIES \<and> errorType \<in> set retryable then Retry
             else Fail (DictionaryAPIError errorType (getErrorMessage errorType)
                          (err_statusCode error))))"

section \<open>State\<close>

text \<open>
  The environment of a run: whether \<open>'abort' in signal\<close> holds for the signals the hook
  passes to \<open>fetch\<close>, and how the \<open>n\<close>-th call of \<open>fetch\<close> (counted from 0, for the given
  word) behaves.
\<close>

record env =
  signalHasAbort :: bool
  fetch :: "nat \<Rightarrow> string \<Rightarrow> fetch_behaviour"

text \<open>The props of the hook, lines 51-56 (\<open>validWords\<close> and \<open>onValidWord\<close> are in the state).\<close>

record props =
  centerLetter :: string
  minWordLength :: int

datatype phase = Fetching | Sleeping

text \<open>
  The state one validator instance works on. \<open>foundWords\<close> is the parent's list, passed
  to the hook as \<open>validWords\<close>; \<open>onValidWord\<close> appends to it (\<open>handleValidWord\<close> in
  \<open>AppContent.tsx\<close>). Controllers are numbered as they are created; \<open>aborted\<close> lists
  those whose \<open>abort()\<close> was called. \<open>fetchLog\<close> lists the words \<open>fetch\<close> was called for,
  \<open>sleepLog\<close> the retry delays waited, \<open>tracked\<close> the \<open>trackEvent\<close> calls. \<open>pending\<close>
  holds the suspended calls of \<open>validateWord\<close> by controller: word, \<open>retryCount\<close>, and
  whether the call awaits its fetch or its retry delay.
\<close>

record state =
  dictionaryCache :: cache
  abortControllerRef :: "nat option"
  aborted :: "nat list"
  nextController :: nat
  isValidating :: bool
  errorMessage :: "string option"
  foundWords :: "string list"
  tracked :: "(string \<times> string \<times> string) list"
  fetchLog :: "string list"
  sleepLog :: "nat list"
  pending :: "(nat \<times> string \<times> nat \<times> phase) list"

definition initial :: state where
  "initial = \<lparr> dictionaryCache = [], abortControllerRef = None, aborted = [],
     nextController = 0, isValidating = False, errorMessage = None, foundWords = [],
     tracked = [], fetchLog = [], sleepLog = [], pending = [] \<rparr>"

section \<open>checkDictionaryAPI\<close>

text \<open>Lines 257-261: what \<open>await fetchWithTimeout(...)\<close> gives for the \<open>n\<close>-th fetch.\<close>

definition awaitFetch :: "env \<Rightarrow> nat \<Rightarrow> string \<Rightarrow> thrown + response" where
  "awaitFetch e n word = fetchWithTimeout (signalHasAbort e) (fetch e n word) TIMEOUT_MS"

text \<open>
  \<open>checkDictionaryAPI(word, signal, retryCount)\<close>, lines 233-332, run to completion with no
  other call in between: the result (\<open>Inl\<close> what it throws, \<open>Inr\<close> what it returns) and the
  state it leaves.
\<close>

function checkDictionaryAPI :: "env \<Rightarrow> string \<Rightarrow> nat \<Rightarrow> state \<Rightarrow> (thrown + bool) \<times> state" where
  "checkDictionaryAPI e word retryCount s =
     (case cache_get (dictionaryCache s) word of
        Some v \<Rightarrow> (Inr v, s)
      | None \<Rightarrow>
          (let s1 = s\<lparr> dictionaryCache := evict (dictionaryCache s),
                       fetchLog := fetchLog s @ [word] \<rparr>;
               outcome = awaitFetch e (length (fetchLog s)) word
           in case process_response outcome of
                Inr isValid \<Rightarrow>
                  (Inr isValid,
                   s1\<lparr> dictionaryCache := cache_set word isValid (dictionaryCache s1) \<rparr>)
              | Inl (error, resp) \<Rightarrow>
                  (case catch_block error resp retryCount of
                     Rethrow x \<Rightarrow> (Inl x, s1)
                   | Fail x \<Rightarrow> (Inl x, s1)
                   | Retry \<Rightarrow>
                       checkDictionaryAPI e word (retryCount + 1)
                         (s1\<lparr> sleepLog := sleepLog s1 @ [RETRY_DELAY_MS] \<rparr>))))"
  by pat_completeness auto

termination
  by (relation "measure (\<lambda>(e, word, retryCount, s). MAX_RETRIES - retryCount)")
     (auto simp: catch_block_def split: if_splits sum.splits)

declare checkDictionaryAPI.simps [simp del]

section \<open>validateWord\<close>

text \<open>
  Lines 351-358: abort the controller the ref holds, clear the error message, put a new
  controller in the ref.
\<close>

definition begin_validation :: "state \<Rightarrow> state" where
  "begin_validation s =
     (let s1 = (case abortControllerRef s of
                  None \<Rightarrow> s
                | Some c \<Rightarrow> s\<lparr> aborted := aborted s @ [c] \<rparr>)
      in s1\<lparr> errorMessage := None,
              abortControllerRef := Some (nextController s1),
              nextController := nextController s1 + 1 \<rparr>)"

text \<open>
  The three \<open>validationChecks\<close>, lines 370-386, each with \<open>isValid\<close> and \<open>errorMessage\<close>, and
  the loop over them, lines 389-402, which stops at the first that fails.
\<close>

definition tooShortMessage :: "props \<Rightarrow> string" where
  "tooShortMessage p =
     ''Words must be at least '' @ string_of_int (minWordLength p) @ '' letters long.''"

definition missingCenterMessage :: "props \<Rightarrow> string" where
  "missingCenterMessage p =
     ''Word must contain the letter '' @ [CHR 0x22] @ toUpperCase (centerLetter p)
       @ [CHR 0x22] @ ''.''"

definition duplicateMessage :: string where
  "duplicateMessage = ''You already found this word!''"

definition validationChecks :: "props \<Rightarrow> string list \<Rightarrow> string \<Rightarrow> (bool \<times> string) list" where
  "validationChecks p validWords normalizedWord =
     [ (minWordLength p \<le> int (length normalizedWord), tooShortMessage p),
       (str_includes normalizedWord (toLowerCase (centerLetter p)), missingCenterMessage p),
       (\<not> list_ex (\<lambda>w. toLowerCase w = normalizedWord) validWords, duplicateMessage) ]"

fun first_failure :: "(bool \<times> string) list \<Rightarrow> string option" where
  "first_failure [] = None"
| "first_failure ((isValid, msg) # checks) = (if \<not> isValid then Some msg else first_failure checks)"

definition trackEvent :: "string \<Rightarrow> string \<Rightarrow> string \<Rightarrow> state \<Rightarrow> state" where
  "trackEvent category action label s = s\<lparr> tracked := tracked s @ [(category, action, label)] \<rparr>"

definition reject_local :: "string \<Rightarrow> state \<Rightarrow> state" where
  "reject_local msg s = trackEvent ''Puzzle'' ''Invalid Word'' msg (s\<lparr> errorMessage := Some msg \<rparr>)"

text \<open>
  Lines 423-458, what \<open>validateWord\<close> does once \<open>await checkDictionaryAPI(...)\<close> has
  settled: the two branches on the value, the \<open>catch\<close> block, then \<open>finally\<close>.
\<close>

definition onValidWord :: "string \<Rightarrow> state \<Rightarrow> state" where
  "onValidWord w s = s\<lparr> foundWords := foundWords s @ [w] \<rparr>"

definition apply_result :: "string \<Rightarrow> thrown + bool \<Rightarrow> state \<Rightarrow> state" where
  "apply_result normalizedWord r s =
     (case r of
        Inr isValidWord \<Rightarrow>
          if isValidWord then (onValidWord normalizedWord s)\<lparr> errorMessage := None \<rparr>
          else trackEvent ''Puzzle'' ''Invalid Word'' ''Not in dictionary''
                 (s\<lparr> errorMessage := Some ''Not a valid English word.'' \<rparr>)
      | Inl error \<Rightarrow>
          if isPlainAbort error then s
          else trackEvent ''Puzzle'' ''API Error'' (err_message error)
                 (s\<lparr> errorMessage := Some (if isDictionaryAPIError error then err_message error
                                            else ''Error validating word. Please try again.'') \<rparr>))"

definition finally_block :: "state \<Rightarrow> state" where
  "finally_block s = s\<lparr> isValidating := False, abortControllerRef := None \<rparr>"

text \<open>
  \<open>validateWord(word)\<close>, lines 348-459, run to completion with no other call in between.
\<close>

definition validateWord :: "props \<Rightarrow> env \<Rightarrow> string \<Rightarrow> state \<Rightarrow> state" where
  "validateWord p e word s =
     (let s1 = begin_validation s;
          normalizedWord = toLowerCase (trim word)
      in case first_failure (validationChecks p (foundWords s1) normalizedWord) of
           Some msg \<Rightarrow> reject_local msg s1
         | None \<Rightarrow>
             (case checkDictionaryAPI e normalizedWord 0 (s1\<lparr> isValidating := True \<rparr>) of
                (r, s2) \<Rightarrow> finally_block (apply_result normalizedWord r s2)))"

section \<open>Interleaved calls\<close>

text \<open>
  \<open>validateWord\<close> is asynchronous: it is suspended while its fetch is pending and while it
  waits for the retry delay, and other calls run meanwhile. The events are a call of
  \<open>validateWord\<close>, the settling of the fetch of a suspended call (with what
  \<open>await fetchWithTimeout(...)\<close> gives), and the end of the retry delay of a suspended
  call. A call is named by the controller it created. Each event runs the code up to the
  next \<open>await\<close> on a fetch or a delay.

  A fetch whose signal is aborted rejects with the signal's reason, the \<open>AbortError\<close>
  that \<open>abort()\<close> without argument sets.
\<close>

definition abortError :: thrown where
  "abortError = JsError ''AbortError'' ''signal is aborted without reason''"

datatype event = Submit string | Settle nat "thrown + response" | Wake nat

definition drop_call :: "nat \<Rightarrow> state \<Rightarrow> state" where
  "drop_call c s = s\<lparr> pending := filter (\<lambda>x. fst x \<noteq> c) (pending s) \<rparr>"

definition set_call :: "nat \<Rightarrow> string \<times> nat \<times> phase \<Rightarrow> state \<Rightarrow> state" where
  "set_call c x s = s\<lparr> pending := filter (\<lambda>y. fst y \<noteq> c) (pending s) @ [(c, x)] \<rparr>"

text \<open>The call of controller \<open>c\<close> got \<open>r\<close> from \<open>checkDictionaryAPI\<close>: lines 423-458.\<close>

definition complete :: "nat \<Rightarrow> string \<Rightarrow> thrown + bool \<Rightarrow> state \<Rightarrow> state" where
  "complete c w r s = finally_block (apply_result w r (drop_call c s))"

text \<open>
  Entering \<open>checkDictionaryAPI(word, signal, retryCount)\<close>, lines 238-261: a cache hit
  returns at once, otherwise the eviction runs and the fetch is issued.
\<close>

definition enter_check :: "nat \<Rightarrow> string \<Rightarrow> nat \<Rightarrow> state \<Rightarrow> state" where
  "enter_check c w retryCount s =
     (case cache_get (dictionaryCache s) w of
        Some v \<Rightarrow> complete c w (Inr v) s
      | None \<Rightarrow>
          set_call c (w, retryCount, Fetching)
            (s\<lparr> dictionaryCache := evict (dictionaryCache s), fetchLog := fetchLog s @ [w] \<rparr>))"

definition submit :: "props \<Rightarrow> string \<Rightarrow> state \<Rightarrow> state" where
  "submit p word s =
     (let c = nextController s;
          s1 = begin_validation s;
          normalizedWord = toLowerCase (trim word)
      in case first_failure (validationChecks p (foundWords s1) normalizedWord) of
           Some msg \<Rightarrow> reject_local msg s1
         | None \<Rightarrow> enter_check c normalizedWord 0 (s1\<lparr> isValidating := True \<rparr>))"

definition settle :: "nat \<Rightarrow> thrown + response \<Rightarrow> state \<Rightarrow> state" where
  "settle c outcome s =
     (case map_of (pending s) c of
        Some (w, retryCount, Fetching) \<Rightarrow>
          (case process_response (if c \<in> set (aborted s) then Inl abortError else outcome) of
             Inr isValid \<Rightarrow>
               complete c w (Inr isValid)
                 (s\<lparr> dictionaryCache := cache_set w isValid (dictionaryCache s) \<rparr>)
           | Inl (error, resp) \<Rightarrow>
               (case catch_block error resp retryCount of
                  Rethrow x \<Rightarrow> complete c w (Inl x) s
                | Fail x \<Rightarrow> complete c w (Inl x) s
                | Retry \<Rightarrow>
                    set_call c (w, retryCount, Sleeping)
                      (s\<lparr> sleepLog := sleepLog s @ [RETRY_DELAY_MS] \<rparr>)))
      | Some (w, retryCount, Sleeping) \<Rightarrow> s
      | None \<Rightarrow> s)"

definition wake :: "nat \<Rightarrow> state \<Rightarrow> state" where
  "wake c s =
     (case map_of (pending s) c of
        Some (w, retryCount, Sleeping) \<Rightarrow> enter_check c w (retryCount + 1) s
      | Some (w, retryCount, Fetching) \<Rightarrow> s
      | None \<Rightarrow> s)"

fun step :: "props \<Rightarrow> state \<Rightarrow> event \<Rightarrow> state" where
  "step p s (Submit word) = submit p word s"
| "step p s (Settle c outcome) = settle c outcome s"
| "step p s (Wake c) = wake c s"

definition run :: "props \<Rightarrow> state \<Rightarrow> event list \<Rightarrow> state" where
  "run p s evs = foldl (step p) s evs"

text \<open>The requests in flight: the calls awaiting a fetch whose signal is not aborted.\<close>

definition inFlight :: "state \<Rightarrow> nat list" where
  "inFlight s =
     map fst (filter (\<lambda>(c, w, k, ph). ph = Fetching \<and> c \<notin> set (aborted s)) (pending s))"

section \<open>Progress\<close>

text \<open>\<open>PuzzleData\<close> (the fields \<open>AppContent.tsx\<close> reads) and \<open>progress\<close>, lines 37-40.\<close>

record PuzzleData =
  center :: string
  outer :: "string list"
  validWords :: "string list"

definition progress :: "string list \<Rightarrow> PuzzleData option \<Rightarrow> rat" where
  "progress found puzzleData =
     (case puzzleData of
        None \<Rightarrow> 0
      | Some pd \<Rightarrow>
          if length (validWords pd) = 0 then 0
          else of_nat (length found) / of_nat (length (validWords pd)))"

section \<open>Auxiliary notions\<close>

text \<open>
  The state right after a fetch for \<open>w\<close> was issued (lines 245-261): the eviction has
  run and the fetch is logged.
\<close>

definition issued :: "string \<Rightarrow> state \<Rightarrow> state" where
  "issued w s = s\<lparr> dictionaryCache := evict (dictionaryCache s), fetchLog := fetchLog s @ [w] \<rparr>"

text \<open>
  The kind of failure the \<open>catch\<close> block sees when the \<open>n\<close>-th fetch is an attempt for
  \<open>w\<close>: \<open>None\<close> when the attempt returns a value or is a plain abort.
\<close>

definition attemptFailure :: "env \<Rightarrow> nat \<Rightarrow> string \<Rightarrow> DictionaryErrorType option" where
  "attemptFailure e n w =
     (case process_response (awaitFetch e n w) of
        Inr isValid \<Rightarrow> None
      | Inl (error, resp) \<Rightarrow>
          if isPlainAbort error then None
          else (case errorTypeOf error resp of Inr t \<Rightarrow> Some t | Inl x \<Rightarrow> None))"

text \<open>A lookup of a word that is not in the cache and not in the dictionary: lines 245-287.\<close>

definition push :: "cache \<Rightarrow> string \<Rightarrow> cache" where
  "push c w = cache_set w False (evict c)"

text \<open>A word that is its own normal form and passes the local rules when nothing was found yet.\<close>

definition plain :: "props \<Rightarrow> string \<Rightarrow> bool" where
  "plain p w = (toLowerCase (trim w) = w \<and> first_failure (validationChecks p [] w) = None)"

text \<open>Calls of \<open>validateWord\<close> one after the other, each run to completion.\<close>

definition validateAll :: "props \<Rightarrow> env \<Rightarrow> string list \<Rightarrow> state \<Rightarrow> state" where
  "validateAll p e ws s = foldl (\<lambda>s w. validateWord p e w s) s ws"

text \<open>
  The events that carry one call of \<open>validateWord\<close> to its end when no other call comes
  in between: the fetch of each attempt settles as the environment says, then the retry
  delay ends. \<open>r\<close> is the number of retries left, \<open>n\<close> the number of the next fetch.
\<close>

fun script :: "env \<Rightarrow> nat \<Rightarrow> string \<Rightarrow> nat \<Rightarrow> nat \<Rightarrow> event list" where
  "script e c w n 0 = [Settle c (awaitFetch e n w)]"
| "script e c w n (Suc r) = Settle c (awaitFetch e n w) # Wake c # script e c w (Suc n) r"

text \<open>The event belongs to the suspended call \<open>c\<close>.\<close>

definition touches :: "nat \<Rightarrow> event \<Rightarrow> bool" where
  "touches c ev = (case ev of Submit word \<Rightarrow> False | Settle c' outcome \<Rightarrow> c' = c | Wake c' \<Rightarrow> c' = c)"

text \<open>
  Controllers are numbered in the order of their creation: every controller that was
  aborted, that belongs to a suspended call or that the ref holds was created before.
\<close>

definition wf :: "state \<Rightarrow> bool" where
  "wf s = (list_all (\<lambda>c. c < nextController s) (aborted s)
         \<and> list_all (\<lambda>x. fst x < nextController s) (pending s)
         \<and> (case abortControllerRef s of None \<Rightarrow> 0 | Some c \<Rightarrow> Suc c) \<le> nextController s)"

text \<open>
  A cache as the eviction expects it: keys are unique, none is the empty string, and
  there are at most \<open>CACHE_SIZE_LIMIT\<close> entries.
\<close>

definition bounded :: "cache \<Rightarrow> bool" where
  "bounded c = (distinct (map fst c) \<and> [] \<notin> fst ` set c \<and> length c \<le> CACHE_SIZE_LIMIT)"

text \<open>The event is the settling of the fetch of call \<open>c\<close>.\<close>

fun settles :: "nat \<Rightarrow> event \<Rightarrow> bool" where
  "settles c (Settle c' outcome) = (c' = c)"
| "settles c (Submit word) = False"
| "settles c (Wake c') = False"

section \<open>Scenarios\<close>

text \<open>The props of the hook's own tests, with the default \<open>minWordLength\<close>.\<close>

definition defaultProps :: props where
  "defaultProps = \<lparr> centerLetter = ''a'', minWordLength = 4 \<rparr>"

text \<open>Props with an empty center letter and no minimum length.\<close>

definition emptyProps :: props where
  "emptyProps = \<lparr> centerLetter = [], minWordLength = 0 \<rparr>"

definition okResponse :: "string option list \<Rightarrow> response" where
  "okResponse d = \<lparr> ok = True, status = 200, json_body = Inr (JArray d) \<rparr>"

definition statusResponse :: "nat \<Rightarrow> response" where
  "statusResponse n = \<lparr> ok = False, status = n, json_body = Inr JOther \<rparr>"

definition failedToFetch :: thrown where
  "failedToFetch = JsError ''TypeError'' ''Failed to fetch''"

text \<open>
  Environments in which every fetch behaves alike: the dictionary has every word, has no
  word (an empty array), answers with a status that is not \<open>ok\<close>, cannot be reached, or
  answers after 6 seconds.
\<close>

definition allFound :: env where
  "allFound = \<lparr> signalHasAbort = False,
                fetch = (\<lambda>n w. Settles 100 (Inr (okResponse [Some w]))) \<rparr>"

definition noneFound :: env where
  "noneFound = \<lparr> signalHasAbort = False, fetch = (\<lambda>n w. Settles 100 (Inr (okResponse []))) \<rparr>"

definition answering :: "nat \<Rightarrow> env" where
  "answering n = \<lparr> signalHasAbort = False, fetch = (\<lambda>k w. Settles 100 (Inr (statusResponse n))) \<rparr>"

definition offline :: env where
  "offline = \<lparr> signalHasAbort = False, fetch = (\<lambda>n w. Settles 100 (Inl failedToFetch)) \<rparr>"

text \<open>
  The failure the hook's retry tests inject (lines 870 and 897): every fetch, or only the
  first, rejects with \<open>new TypeError('Network error')\<close>.
\<close>

definition networkError :: thrown where
  "networkError = JsError ''TypeError'' ''Network error''"

definition unreachable :: env where
  "unreachable = \<lparr> signalHasAbort = False, fetch = (\<lambda>n w. Settles 100 (Inl networkError)) \<rparr>"

definition recovering :: env where
  "recovering = \<lparr> signalHasAbort = False,
                   fetch = (\<lambda>n w. if n = 0 then Settles 100 (Inl networkError)
                                   else Settles 100 (Inr (okResponse [Some w]))) \<rparr>"

definition slow :: "bool \<Rightarrow> env" where
  "slow hasAbort = \<lparr> signalHasAbort = hasAbort,
                     fetch = (\<lambda>n w. Settles 6000 (Inr (okResponse [Some w]))) \<rparr>"

text \<open>The puzzle the server serves, \<open>server/index.js\<close>, lines 40-43.\<close>

definition samplePuzzle :: PuzzleData where
  "samplePuzzle = \<lparr> center = ''A'', outer = [''B'', ''C'', ''D'', ''E'', ''F'', ''G''],
     validWords = [''CAB'', ''BAD'', ''FAD'', ''FACE'', ''AGED'', ''BADGE'', ''FADED''] \<rparr>"

text \<open>Props with an empty center letter and the default minimum length.\<close>

definition noCenterProps :: props where
  "noCenterProps = \<lparr> centerLetter = [], minWordLength = 4 \<rparr>"

text \<open>The first fetch cannot reach the dictionary, the later ones find the word.\<close>

definition flaky :: env where
  "flaky = \<lparr> signalHasAbort = False,
              fetch = (\<lambda>n w. if n = 0 then Settles 100 (Inl failedToFetch)
                              else Settles 100 (Inr (okResponse [Some w]))) \<rparr>"

text \<open>Every fetch rejects with an abort error that names a timeout.\<close>

definition timingOut :: env where
  "timingOut = \<lparr> signalHasAbort = False,
                  fetch = (\<lambda>n w. Settles 100 (Inl (JsError ''AbortError'' ''timeout''))) \<rparr>"

text \<open>Every fetch gets an \<open>ok\<close> response whose body is not an array.\<close>

definition malformed :: env where
  "malformed = \<lparr> signalHasAbort = False,
       fetch = (\<lambda>n w. Settles 100 (Inr \<lparr> ok = True, status = 200, json_body = Inr JOther \<rparr>)) \<rparr>"

text \<open>A thousand distinct words: \<open>aaaaa\<close>, \<open>aaaaaa\<close>, and so on.\<close>

definition filler :: "nat \<Rightarrow> string" where
  "filler n = replicate (n + 5) (CHR ''a'')"

definition fillers :: "string list" where
  "fillers = map filler [0..<1000]"

section \<open>Basic facts\<close>

lemma str_includes_Nil [simp]: "str_includes s [] = True"
  by (cases s) simp_all

lemma begin_validation_fields [simp]:
  "foundWords (begin_validation s) = foundWords s"
  "dictionaryCache (begin_validation s) = dictionaryCache s"
  "fetchLog (begin_validation s) = fetchLog s"
  "sleepLog (begin_validation s) = sleepLog s"
  "tracked (begin_validation s) = tracked s"
  "errorMessage (begin_validation s) = None"
  "pending (begin_validation s) = pending s"
  by (simp_all add: begin_validation_def Let_def split: option.split)

lemma reject_local_fields [simp]:
  "foundWords (reject_local m s) = foundWords s"
  "dictionaryCache (reject_local m s) = dictionaryCache s"
  "fetchLog (reject_local m s) = fetchLog s"
  "sleepLog (reject_local m s) = sleepLog s"
  "errorMessage (reject_local m s) = Some m"
  by (simp_all add: reject_local_def trackEvent_def)

lemma getErrorType_Some: "\<exists>t. getErrorType (Some x) resp = Inr t"
  by (simp add: getErrorType_def split: option.split)

lemma errorTypeOf_Inr: "\<exists>t. errorTypeOf x resp = Inr t"
  using getErrorType_Some by (cases x) (simp_all add: errorTypeOf_def)

lemma isPlainAbort_JsError: "isPlainAbort x \<Longrightarrow> \<not> isDictionaryAPIError x"
  by (cases x) (simp_all add: isPlainAbort_def isDictionaryAPIError_def)

lemma catch_block_Rethrow: "catch_block x resp k = Rethrow y \<Longrightarrow> y = x \<and> isPlainAbort x"
  using errorTypeOf_Inr [of x resp]
  by (auto simp: catch_block_def split: if_splits sum.splits)

lemma catch_block_Fail:
  "catch_block x resp k = Fail y \<Longrightarrow>
     \<not> isPlainAbort x \<and>
     (\<exists>t. errorTypeOf x resp = Inr t \<and> (k < MAX_RETRIES \<longrightarrow> t \<notin> set retryable)
        \<and> y = DictionaryAPIError t (getErrorMessage t) (err_statusCode x))"
  by (auto simp: catch_block_def split: if_splits sum.splits)

lemma catch_block_Retry:
  "catch_block x resp k = Retry \<Longrightarrow>
     \<not> isPlainAbort x \<and> k < MAX_RETRIES \<and> (\<exists>t. errorTypeOf x resp = Inr t \<and> t \<in> set retryable)"
  by (auto simp: catch_block_def split: if_splits sum.splits)

text \<open>\<open>checkDictionaryAPI\<close> touches the cache and the two logs only.\<close>

lemma checkDictionaryAPI_frame:
  "foundWords (snd (checkDictionaryAPI e w k s)) = foundWords s
   \<and> errorMessage (snd (checkDictionaryAPI e w k s)) = errorMessage s
   \<and> tracked (snd (checkDictionaryAPI e w k s)) = tracked s
   \<and> isValidating (snd (checkDictionaryAPI e w k s)) = isValidating s
   \<and> abortControllerRef (snd (checkDictionaryAPI e w k s)) = abortControllerRef s
   \<and> aborted (snd (checkDictionaryAPI e w k s)) = aborted s
   \<and> nextController (snd (checkDictionaryAPI e w k s)) = nextController s
   \<and> pending (snd (checkDictionaryAPI e w k s)) = pending s"
proof (induction e w k s rule: checkDictionaryAPI.induct)
  case (1 e word retryCount s)
  show ?case
    apply (subst (1 2 3 4 5 6 7 8) checkDictionaryAPI.simps)
    using 1
    apply (auto simp: Let_def split: option.splits sum.splits catch_outcome.splits prod.splits)
    done
qed

text \<open>What \<open>checkDictionaryAPI\<close> throws: a plain abort, or the user-facing error.\<close>

lemma checkDictionaryAPI_thrown:
  "fst (checkDictionaryAPI e w k s) = Inl x \<Longrightarrow>
     isPlainAbort x \<or> (\<exists>t c. x = DictionaryAPIError t (getErrorMessage t) c)"
proof (induction e w k s rule: checkDictionaryAPI.induct)
  case (1 e word retryCount s)
  show ?case
    using "1.prems"
    apply (subst (asm) checkDictionaryAPI.simps)
    using "1.IH"
    apply (auto simp: Let_def split: option.splits sum.splits catch_outcome.splits prod.splits
                dest!: catch_block_Rethrow catch_block_Fail)
    done
qed

section \<open>Facts about the state\<close>

lemma issued_fields [simp]:
  "fetchLog (issued w s) = fetchLog s @ [w]"
  "sleepLog (issued w s) = sleepLog s"
  "tracked (issued w s) = tracked s"
  "foundWords (issued w s) = foundWords s"
  "errorMessage (issued w s) = errorMessage s"
  "dictionaryCache (issued w s) = evict (dictionaryCache s)"
  by (simp_all add: issued_def)

lemma finally_block_fields [simp]:
  "errorMessage (finally_block s) = errorMessage s"
  "foundWords (finally_block s) = foundWords s"
  "fetchLog (finally_block s) = fetchLog s"
  "sleepLog (finally_block s) = sleepLog s"
  "tracked (finally_block s) = tracked s"
  "dictionaryCache (finally_block s) = dictionaryCache s"
  "pending (finally_block s) = pending s"
  "aborted (finally_block s) = aborted s"
  "nextController (finally_block s) = nextController s"
  by (simp_all add: finally_block_def)

lemma apply_result_fields [simp]:
  "fetchLog (apply_result w r s) = fetchLog s"
  "sleepLog (apply_result w r s) = sleepLog s"
  "dictionaryCache (apply_result w r s) = dictionaryCache s"
  "pending (apply_result w r s) = pending s"
  "aborted (apply_result w r s) = aborted s"
  "nextController (apply_result w r s) = nextController s"
  by (simp_all add: apply_result_def trackEvent_def onValidWord_def split: sum.split)

lemma apply_result_found:
  "foundWords (apply_result w r s) = foundWords s @ (if r = Inr True then [w] else [])"
  by (auto simp: apply_result_def trackEvent_def onValidWord_def split: sum.split)

lemma apply_result_abort: "isPlainAbort x \<Longrightarrow> apply_result w (Inl x) s = s"
  by (simp add: apply_result_def)

lemma apply_result_surfaced:
  "errorMessage (apply_result w (Inl (DictionaryAPIError t (getErrorMessage t) c)) s)
     = Some (getErrorMessage t)"
  by (simp add: apply_result_def isPlainAbort_def isDictionaryAPIError_def trackEvent_def)

lemma drop_call_fields [simp]:
  "foundWords (drop_call c s) = foundWords s"
  "errorMessage (drop_call c s) = errorMessage s"
  "tracked (drop_call c s) = tracked s"
  "dictionaryCache (drop_call c s) = dictionaryCache s"
  "aborted (drop_call c s) = aborted s"
  "nextController (drop_call c s) = nextController s"
  "fetchLog (drop_call c s) = fetchLog s"
  "pending (drop_call c s) = filter (\<lambda>x. fst x \<noteq> c) (pending s)"
  by (simp_all add: drop_call_def)

lemma set_call_fields [simp]:
  "foundWords (set_call c x s) = foundWords s"
  "errorMessage (set_call c x s) = errorMessage s"
  "tracked (set_call c x s) = tracked s"
  "dictionaryCache (set_call c x s) = dictionaryCache s"
  "aborted (set_call c x s) = aborted s"
  "nextController (set_call c x s) = nextController s"
  "fetchLog (set_call c x s) = fetchLog s"
  "pending (set_call c x s) = filter (\<lambda>y. fst y \<noteq> c) (pending s) @ [(c, x)]"
  by (simp_all add: set_call_def)

lemma begin_validation_more [simp]:
  "set (aborted s) \<subseteq> set (aborted (begin_validation s))"
  "nextController (begin_validation s) = Suc (nextController s)"
  "abortControllerRef s = Some c \<Longrightarrow> c \<in> set (aborted (begin_validation s))"
  by (auto simp: begin_validation_def Let_def split: option.split)

lemma reject_local_more [simp]:
  "pending (reject_local m s) = pending s"
  "aborted (reject_local m s) = aborted s"
  "nextController (reject_local m s) = nextController s"
  by (simp_all add: reject_local_def trackEvent_def)

section \<open>Facts about the cache\<close>

lemma cache_get_delete: "cache_get c w = None \<Longrightarrow> cache_get (cache_delete k c) w = None"
  by (induction c) (auto simp: cache_get_def cache_delete_def)

lemma cache_get_evict: "cache_get c w = None \<Longrightarrow> cache_get (evict c) w = None"
  by (auto simp: evict_def cache_get_delete split: list.split)

lemma cache_get_set [simp]: "cache_get (cache_set w v c) w = Some v"
  by (induction c) (auto simp: cache_get_def)

section \<open>One attempt of checkDictionaryAPI\<close>

lemma check_retry:
  assumes "cache_get (dictionaryCache s) w = None"
    and "attemptFailure e (length (fetchLog s)) w = Some t" and "t \<in> set retryable"
    and "k < MAX_RETRIES"
  shows "checkDictionaryAPI e w k s =
           checkDictionaryAPI e w (Suc k) ((issued w s)\<lparr> sleepLog := sleepLog s @ [RETRY_DELAY_MS] \<rparr>)"
  using assms
  apply (subst checkDictionaryAPI.simps)
  apply (auto simp: attemptFailure_def catch_block_def issued_def Let_def
              split: sum.splits prod.splits if_splits)
  done

lemma check_fail:
  assumes "cache_get (dictionaryCache s) w = None"
    and "attemptFailure e (length (fetchLog s)) w = Some t"
    and "t \<notin> set retryable \<or> \<not> k < MAX_RETRIES"
  shows "\<exists>c. checkDictionaryAPI e w k s =
               (Inl (DictionaryAPIError t (getErrorMessage t) c), issued w s)"
  using assms
  apply (subst checkDictionaryAPI.simps)
  apply (auto simp: attemptFailure_def catch_block_def issued_def Let_def
              split: sum.splits prod.splits if_splits)
  done

lemma check_success:
  assumes "cache_get (dictionaryCache s) w = None"
    and "process_response (awaitFetch e (length (fetchLog s)) w) = Inr b"
  shows "checkDictionaryAPI e w k s =
           (Inr b, (issued w s)\<lparr> dictionaryCache := cache_set w b (evict (dictionaryCache s)) \<rparr>)"
  using assms
  apply (subst checkDictionaryAPI.simps)
  apply (auto simp: issued_def Let_def)
  done

lemma check_404:
  assumes "cache_get (dictionaryCache s) w = None"
    and "awaitFetch e (length (fetchLog s)) w = Inr r" and "\<not> ok r" and "status r = 404"
  shows "checkDictionaryAPI e w k s =
           (Inl (DictionaryAPIError WORD_NOT_FOUND ''Not a valid English word.'' None), issued w s)"
  using assms
  apply (subst checkDictionaryAPI.simps)
  apply (simp add: issued_def Let_def process_response_def getErrorType_def catch_block_def
      isPlainAbort_def nullNameError_def errorTypeOf_def retryable_def)
  done

section \<open>Facts about interleaved calls\<close>

lemma abortError_plain: "isPlainAbort abortError"
  by (simp add: isPlainAbort_def abortError_def)

lemma map_of_filter_other:
  "c \<noteq> c' \<Longrightarrow> map_of (filter (\<lambda>x. fst x \<noteq> c') xs) c = map_of xs c"
  by (induction xs) auto

lemma map_of_snoc_other:
  "c \<noteq> c' \<Longrightarrow> map_of (xs @ [(c', x)]) c = map_of xs c"
  by (induction xs) auto

lemma map_of_filter_self: "map_of (filter (\<lambda>x. fst x \<noteq> c) xs) c = None"
  by (induction xs) auto

text \<open>The settling of a cancelled fetch ends the call and applies nothing.\<close>

lemma settle_aborted:
  assumes "map_of (pending s) c = Some (w, k, Fetching)" and "c \<in> set (aborted s)"
  shows "settle c outcome s = finally_block (drop_call c s)"
  using assms abortError_plain
  by (simp add: settle_def process_response_def catch_block_def complete_def apply_result_abort)

lemma complete_other:
  "c \<noteq> c' \<Longrightarrow> map_of (pending (complete c' w r s)) c = map_of (pending s) c"
  by (simp add: complete_def map_of_filter_other)

lemma complete_more [simp]:
  "aborted (complete c w r s) = aborted s"
  "nextController (complete c w r s) = nextController s"
  "foundWords (complete c w r s) = foundWords s @ (if r = Inr True then [w] else [])"
  by (simp_all add: complete_def apply_result_found)

lemma enter_check_other:
  "c \<noteq> c' \<Longrightarrow> map_of (pending (enter_check c' w k s)) c = map_of (pending s) c"
  by (simp add: enter_check_def complete_other map_of_filter_other map_of_snoc_other
      del: map_of_append split: option.split)

lemma enter_check_more [simp]:
  "aborted (enter_check c w k s) = aborted s"
  "nextController (enter_check c w k s) = nextController s"
  by (simp_all add: enter_check_def split: option.split)

lemma enter_check_found:
  "length (foundWords s) \<le> length (foundWords (enter_check c w k s))"
  by (simp add: enter_check_def split: option.split)

lemma submit_keeps:
  assumes "map_of (pending s) c = Some (w, k, Fetching)" "c < nextController s"
  shows "map_of (pending (submit p word s)) c = Some (w, k, Fetching)"
    and "set (aborted s) \<subseteq> set (aborted (submit p word s))"
    and "nextController s \<le> nextController (submit p word s)"
    and "abortControllerRef s = Some c \<Longrightarrow> c \<in> set (aborted (submit p word s))"
  using assms
  by (auto simp: submit_def Let_def enter_check_other split: option.split)

lemma settle_keeps:
  assumes "map_of (pending s) c = Some (w, k, Fetching)" "c \<noteq> c'"
  shows "map_of (pending (settle c' outcome s)) c = Some (w, k, Fetching)"
    and "aborted (settle c' outcome s) = aborted s"
    and "nextController (settle c' outcome s) = nextController s"
  using assms
  by (auto simp: settle_def complete_other map_of_filter_other map_of_snoc_other
      simp del: map_of_append
      split: option.split prod.split phase.split sum.split catch_outcome.split)

lemma wake_keeps:
  assumes "map_of (pending s) c = Some (w, k, Fetching)"
  shows "map_of (pending (wake c' s)) c = Some (w, k, Fetching)"
    and "aborted (wake c' s) = aborted s"
    and "nextController (wake c' s) = nextController s"
proof -
  have "wake c' s = s \<or> (c \<noteq> c' \<and> (\<exists>w' k'. wake c' s = enter_check c' w' (Suc k') s))"
    using assms by (auto simp: wake_def split: option.split prod.split phase.split)
  then show "map_of (pending (wake c' s)) c = Some (w, k, Fetching)"
    "aborted (wake c' s) = aborted s" "nextController (wake c' s) = nextController s"
    using assms by (auto simp: enter_check_other)
qed

text \<open>
  A cancelled call that awaits its fetch stays so until that fetch settles, whatever
  else happens.
\<close>

lemma step_keeps:
  assumes "map_of (pending s) c = Some (w, k, Fetching)" "c \<in> set (aborted s)"
    "c < nextController s" "\<not> settles c ev"
  shows "map_of (pending (step p s ev)) c = Some (w, k, Fetching)
         \<and> c \<in> set (aborted (step p s ev)) \<and> c < nextController (step p s ev)"
proof (cases ev)
  case (Submit word)
  then show ?thesis using submit_keeps [OF assms(1,3), of p word] assms(2,3) by auto
next
  case (Settle c' outcome)
  then show ?thesis using settle_keeps [OF assms(1), of c' outcome] assms(2,3,4) by auto
next
  case (Wake c')
  then show ?thesis using wake_keeps [OF assms(1), of c'] assms(2,3) by auto
qed

lemma run_keeps:
  assumes "map_of (pending s) c = Some (w, k, Fetching)" "c \<in> set (aborted s)"
    "c < nextController s" "list_all (\<lambda>ev. \<not> settles c ev) evs"
  shows "map_of (pending (run p s evs)) c = Some (w, k, Fetching)
         \<and> c \<in> set (aborted (run p s evs)) \<and> c < nextController (run p s evs)"
  using assms
proof (induction evs arbitrary: s)
  case Nil
  then show ?case by (simp add: run_def)
next
  case (Cons ev evs)
  from step_keeps [OF Cons.prems(1,2,3), of ev p] Cons.prems(4)
  have "map_of (pending (step p s ev)) c = Some (w, k, Fetching)"
    "c \<in> set (aborted (step p s ev))" "c < nextController (step p s ev)" by auto
  from Cons.IH [OF this] Cons.prems(4) show ?case by (simp add: run_def)
qed

section \<open>The list of found words only grows\<close>

lemma validateWord_found:
  "length (foundWords s) \<le> length (foundWords (validateWord p e word s))"
proof -
  obtain r s2 where rc: "checkDictionaryAPI e (toLowerCase (trim word)) 0
      ((begin_validation s)\<lparr> isValidating := True \<rparr>) = (r, s2)"
    by (cases "checkDictionaryAPI e (toLowerCase (trim word)) 0
                 ((begin_validation s)\<lparr> isValidating := True \<rparr>)")
  have "foundWords s2 = foundWords s"
    using checkDictionaryAPI_frame [of e "toLowerCase (trim word)" 0
        "(begin_validation s)\<lparr> isValidating := True \<rparr>"] rc
    by simp
  then show ?thesis
    using rc by (simp add: validateWord_def Let_def apply_result_found split: option.split)
qed

lemma step_found: "length (foundWords s) \<le> length (foundWords (step p s ev))"
proof (cases ev)
  case (Submit word)
  then show ?thesis
    using enter_check_found [of "(begin_validation s)\<lparr> isValidating := True \<rparr>"
        "nextController s" "toLowerCase (trim word)" 0]
    by (simp add: submit_def Let_def split: option.split)
next
  case (Settle c outcome)
  show ?thesis
    unfolding Settle step.simps settle_def
    by (simp split: option.split prod.split phase.split sum.split catch_outcome.split)
next
  case (Wake c)
  then show ?thesis
    using enter_check_found
    by (simp add: wake_def split: option.split prod.split phase.split)
qed

lemma progress_mono:
  "length found \<le> length found' \<Longrightarrow> progress found pd \<le> progress found' pd"
  by (simp add: progress_def divide_right_mono split: option.split)

section \<open>Messages\<close>

lemma missingCenter_empty:
  "centerLetter p = [] \<Longrightarrow>
     missingCenterMessage p = ''Word must contain the letter '' @ [CHR 0x22, CHR 0x22] @ ''.''"
  by (simp add: missingCenterMessage_def toUpperCase_def)

lemma getErrorMessage_not_center:
  "getErrorMessage t \<noteq> ''Word must contain the letter '' @ [CHR 0x22, CHR 0x22] @ ''.''"
  by (cases t) simp_all

lemma apply_result_errorMessage:
  assumes "isPlainAbort x \<or> (\<exists>t c. x = DictionaryAPIError t (getErrorMessage t) c)"
    and "errorMessage s = None" and "centerLetter p = []"
  shows "errorMessage (apply_result w (Inl x) s) \<noteq> Some (missingCenterMessage p)"
proof (cases "isPlainAbort x")
  case True
  then show ?thesis using assms(2) by (simp add: apply_result_def)
next
  case False
  with assms(1) obtain t c where x: "x = DictionaryAPIError t (getErrorMessage t) c" by blast
  have "errorMessage (apply_result w (Inl x) s) = Some (getErrorMessage t)"
    using False by (simp add: apply_result_def trackEvent_def isDictionaryAPIError_def x)
  then show ?thesis
    using getErrorMessage_not_center [of t] by (simp add: missingCenter_empty [OF assms(3)])
qed

section \<open>Lookups one after the other\<close>

lemma cache_get_set_other: "w \<noteq> w' \<Longrightarrow> cache_get (cache_set w v c) w' = cache_get c w'"
  by (induction c) (auto simp: cache_get_def)

lemma cache_get_None_iff: "cache_get c w = None \<longleftrightarrow> w \<notin> fst ` set c"
  by (simp add: cache_get_def map_of_eq_None_iff)

lemma cache_set_fresh: "w \<notin> fst ` set c \<Longrightarrow> cache_set w v c = c @ [(w, v)]"
  by (induction c) auto

lemma evict_room: "length c < CACHE_SIZE_LIMIT \<Longrightarrow> evict c = c"
  by (simp add: evict_def)

lemma evict_full:
  "CACHE_SIZE_LIMIT \<le> length ((k, v) # c) \<Longrightarrow> k \<noteq> [] \<Longrightarrow> k \<notin> fst ` set c \<Longrightarrow>
     evict ((k, v) # c) = c"
  by (auto simp: evict_def cache_delete_def filter_id_conv)

lemma evict_empty_key: "evict (([], v) # c) = ([], v) # c"
  by (simp add: evict_def)

lemma push_room:
  "length c + length ws \<le> CACHE_SIZE_LIMIT \<Longrightarrow> distinct ws \<Longrightarrow> set ws \<inter> fst ` set c = {} \<Longrightarrow>
     foldl push c ws = c @ map (\<lambda>w. (w, False)) ws"
proof (induction ws arbitrary: c)
  case Nil
  then show ?case by simp
next
  case (Cons w ws)
  have "push c w = c @ [(w, False)]"
    using Cons.prems by (simp add: push_def evict_room cache_set_fresh)
  moreover have "foldl push (c @ [(w, False)]) ws = (c @ [(w, False)]) @ map (\<lambda>w. (w, False)) ws"
    using Cons.prems by (intro Cons.IH) auto
  ultimately show ?case by simp
qed

section \<open>validateWord, one case at a time\<close>


lemma noneFound_attempt: "process_response (awaitFetch noneFound n w) = Inr False"
  by (simp add: noneFound_def awaitFetch_def fetchWithTimeout_def TIMEOUT_MS_def
      process_response_def okResponse_def isValidData_def)

lemma validateWord_noneFound:
  assumes "toLowerCase (trim w) = w"
    and "first_failure (validationChecks p (foundWords s) w) = None"
    and "cache_get (dictionaryCache s) w = None"
  shows "dictionaryCache (validateWord p noneFound w s) = push (dictionaryCache s) w"
    and "fetchLog (validateWord p noneFound w s) = fetchLog s @ [w]"
    and "foundWords (validateWord p noneFound w s) = foundWords s"
    and "errorMessage (validateWord p noneFound w s) = Some ''Not a valid English word.''"
proof -
  have m: "cache_get (dictionaryCache ((begin_validation s)\<lparr> isValidating := True \<rparr>)) w = None"
    using assms(3) by simp
  show "dictionaryCache (validateWord p noneFound w s) = push (dictionaryCache s) w"
    "fetchLog (validateWord p noneFound w s) = fetchLog s @ [w]"
    "foundWords (validateWord p noneFound w s) = foundWords s"
    "errorMessage (validateWord p noneFound w s) = Some ''Not a valid English word.''"
    using assms(1,2) check_success [OF m noneFound_attempt, of 0]
    by (simp_all add: validateWord_def Let_def push_def apply_result_found apply_result_def trackEvent_def)
qed

lemma validateAll_noneFound:
  assumes "distinct ws" and "list_all (plain p) ws"
    and "set ws \<inter> fst ` set (dictionaryCache s) = {}" and "foundWords s = []"
  shows "dictionaryCache (validateAll p noneFound ws s) = foldl push (dictionaryCache s) ws
       \<and> fetchLog (validateAll p noneFound ws s) = fetchLog s @ ws
       \<and> foundWords (validateAll p noneFound ws s) = []"
  using assms
proof (induction ws arbitrary: s)
  case Nil
  then show ?case by (simp add: validateAll_def)
next
  case (Cons w ws)
  have w: "toLowerCase (trim w) = w" "first_failure (validationChecks p (foundWords s) w) = None"
    "cache_get (dictionaryCache s) w = None"
    using Cons.prems by (simp_all add: plain_def cache_get_None_iff)
  note v = validateWord_noneFound [OF w]
  have fresh: "set ws \<inter> fst ` set (dictionaryCache (validateWord p noneFound w s)) = {}"
  proof -
    have "w' \<notin> fst ` set (push (dictionaryCache s) w)" if "w' \<in> set ws" for w'
    proof -
      have "w \<noteq> w'" using that Cons.prems(1) by auto
      moreover have "cache_get (dictionaryCache s) w' = None"
        using that Cons.prems(3) by (auto simp: cache_get_None_iff)
      ultimately have "cache_get (push (dictionaryCache s) w) w' = None"
        by (simp add: push_def cache_get_set_other cache_get_evict)
      then show ?thesis by (simp add: cache_get_None_iff)
    qed
    then show ?thesis using v(1) by auto
  qed
  have "dictionaryCache (validateAll p noneFound ws (validateWord p noneFound w s))
          = foldl push (dictionaryCache (validateWord p noneFound w s)) ws
       \<and> fetchLog (validateAll p noneFound ws (validateWord p noneFound w s))
          = fetchLog (validateWord p noneFound w s) @ ws
       \<and> foundWords (validateAll p noneFound ws (validateWord p noneFound w s)) = []"
    using Cons.prems fresh v(3) by (intro Cons.IH) simp_all
  then show ?case
    using v by (simp add: validateAll_def)
qed

section \<open>The filler words\<close>

lemma lowerChar_a: "lowerChar (CHR ''a'') = CHR ''a''"
  by (simp add: lowerChar_def upperLetters_def lowerLetters_def)

lemma normalized_replicate: "toLowerCase (trim (replicate n (CHR ''a''))) = replicate n (CHR ''a'')"
  by (simp add: toLowerCase_def trim_def isWhiteSpace_def lowerChar_a)

lemma filler_inj: "filler m = filler n \<longleftrightarrow> m = n"
proof
  assume "filler m = filler n"
  then have "length (filler m) = length (filler n)" by simp
  then show "m = n" by (simp add: filler_def)
qed simp

lemma distinct_fillers: "distinct (map filler [0..<n])"
  by (simp add: distinct_map inj_on_def filler_inj)

lemma length_filler: "length (filler n) = n + 5"
  by (simp add: filler_def)

lemma short_not_filler: "length w < 5 \<Longrightarrow> w \<notin> set (map filler [0..<n])"
  by (auto simp: length_filler)



lemma plain_filler_empty: "plain emptyProps (filler n)"
proof -
  have "toLowerCase [] = []" by (simp add: toLowerCase_def)
  then show ?thesis
    by (simp add: plain_def filler_def normalized_replicate validationChecks_def emptyProps_def)
qed


lemma fillers_split: "fillers = map filler [0..<999] @ [filler 999]"
proof -
  have "[0..<1000] = [0..<999] @ [999]"
    using upt_Suc_append [of 0 999] by simp
  then show ?thesis by (simp add: fillers_def)
qed

lemma validateAll_append:
  "validateAll p e (xs @ ys) s = validateAll p e ys (validateAll p e xs s)"
  by (simp add: validateAll_def)

lemma validateAll_single: "validateAll p e [w] s = validateWord p e w s"
  by (simp add: validateAll_def)


lemma full_cache:
  assumes "plain p w0" and "length w0 < 5" and "\<And>n. plain p (filler n)"
  shows "dictionaryCache (validateAll p noneFound (w0 # map filler [0..<999]) initial)
           = (w0, False) # map (\<lambda>w. (w, False)) (map filler [0..<999])
       \<and> fetchLog (validateAll p noneFound (w0 # map filler [0..<999]) initial)
           = w0 # map filler [0..<999]
       \<and> foundWords (validateAll p noneFound (w0 # map filler [0..<999]) initial) = []"
proof -
  let ?ws = "w0 # map filler [0..<999]"
  have d: "distinct ?ws"
    using short_not_filler [OF assms(2), of 999] distinct_fillers [of 999] by simp
  have a: "list_all (plain p) ?ws"
    using assms(1,3) by (simp add: list_all_iff)
  have i: "set ?ws \<inter> fst ` set (dictionaryCache initial) = {}" "foundWords initial = []"
    "dictionaryCache initial = []" "fetchLog initial = []"
    by (simp_all add: initial_def)
  have "foldl push [] ?ws = [] @ map (\<lambda>w. (w, False)) ?ws"
    using d by (intro push_room) (simp_all add: CACHE_SIZE_LIMIT_def)
  then show ?thesis
    using validateAll_noneFound [OF d a i(1,2)] by (simp add: i)
qed

lemma after_thousand:
  assumes "plain p w0" and "length w0 < 5" and "\<And>n. plain p (filler n)"
  shows "validateAll p noneFound (w0 # fillers) initial
           = validateWord p noneFound (filler 999)
               (validateAll p noneFound (w0 # map filler [0..<999]) initial)"
proof -
  have "w0 # fillers = (w0 # map filler [0..<999]) @ [filler 999]"
    by (simp add: fillers_split)
  then show ?thesis by (simp only: validateAll_append validateAll_single)
qed

lemma last_filler_fresh:
  assumes "length w0 < 5"
  shows "cache_get ((w0, False) # map (\<lambda>w. (w, False)) (map filler [0..<999])) (filler 999) = None"
proof -
  have "filler 999 \<noteq> w0" using assms by (auto simp: length_filler)
  moreover have "filler 999 \<notin> set (map filler [0..<999])" by (simp add: filler_inj image_iff)
  ultimately show ?thesis by (auto simp: cache_get_None_iff image_iff)
qed


section \<open>The two views of validateWord agree\<close>

lemma touches_script: "list_all (touches c) (script e c w n r)"
  by (induction r arbitrary: n) (simp_all add: touches_def)

lemma run_idle:
  "map_of (pending s) c = None \<Longrightarrow> list_all (touches c) evs \<Longrightarrow> run p s evs = s"
proof (induction evs)
  case Nil
  then show ?case by (simp add: run_def)
next
  case (Cons ev evs)
  have "step p s ev = s"
    using Cons.prems by (cases ev) (simp_all add: touches_def settle_def wake_def)
  then show ?case using Cons by (simp add: run_def)
qed

lemma run_Cons: "run p s (ev # evs) = run p (step p s ev) evs"
  by (simp add: run_def)

text \<open>\<open>checkDictionaryAPI\<close> does not read the suspended calls.\<close>

lemma pending_last:
  "(s\<lparr> pending := x \<rparr>)\<lparr> dictionaryCache := a \<rparr> = (s\<lparr> dictionaryCache := a \<rparr>)\<lparr> pending := x \<rparr>"
  "(s\<lparr> pending := x \<rparr>)\<lparr> fetchLog := b \<rparr> = (s\<lparr> fetchLog := b \<rparr>)\<lparr> pending := x \<rparr>"
  "(s\<lparr> pending := x \<rparr>)\<lparr> sleepLog := c \<rparr> = (s\<lparr> sleepLog := c \<rparr>)\<lparr> pending := x \<rparr>"
  by (cases s; simp)+

lemma checkDictionaryAPI_pending:
  "checkDictionaryAPI e w k (s\<lparr> pending := x \<rparr>)
     = (fst (checkDictionaryAPI e w k s), (snd (checkDictionaryAPI e w k s))\<lparr> pending := x \<rparr>)"
proof (induction e w k s rule: checkDictionaryAPI.induct)
  case (1 e word retryCount s)
  show ?case
    apply (subst checkDictionaryAPI.simps)
    apply (subst (2 3) checkDictionaryAPI.simps)
    using "1.IH"
    apply (auto simp: Let_def pending_last split: option.splits sum.splits catch_outcome.splits prod.splits)
    done
qed


lemma issued_more [simp]:
  "aborted (issued w s) = aborted s"
  "pending (issued w s) = pending s"
  "nextController (issued w s) = nextController s"
  by (simp_all add: issued_def)

lemma map_of_others_snoc:
  "map_of (filter (\<lambda>y. fst y \<noteq> c) xs @ [(c, x)]) c = Some x"
  by (induction xs) auto

lemma others_snoc:
  "filter (\<lambda>y. fst y \<noteq> c) (filter (\<lambda>y. fst y \<noteq> c) xs @ [(c, x)]) = filter (\<lambda>y. fst y \<noteq> c) xs"
  by simp

lemma drive:
  assumes "c \<notin> set (aborted s)" and "k + r = MAX_RETRIES"
  shows "run p (enter_check c w k s) (script e c w (length (fetchLog s)) r)
       = finally_block (apply_result w (fst (checkDictionaryAPI e w k s))
           ((snd (checkDictionaryAPI e w k s))\<lparr> pending := filter (\<lambda>x. fst x \<noteq> c) (pending s) \<rparr>))"
  using assms
proof (induction r arbitrary: k s)
  case 0
  then have k: "\<not> k < MAX_RETRIES" by simp
  show ?case
  proof (cases "cache_get (dictionaryCache s) w")
    case (Some v)
    have "map_of (pending (enter_check c w k s)) c = None"
      using Some by (simp add: enter_check_def complete_def map_of_filter_self)
    then have "run p (enter_check c w k s) (script e c w (length (fetchLog s)) 0) = enter_check c w k s"
      using touches_script by (rule run_idle)
    then show ?thesis
      using Some by (simp add: enter_check_def complete_def drop_call_def checkDictionaryAPI.simps [of e w k s])
  next
    case None
    show ?thesis
      using None k "0.prems"(1)
      apply (subst checkDictionaryAPI.simps)
      apply (subst (2) checkDictionaryAPI.simps)
      apply (auto simp: enter_check_def run_def settle_def map_of_others_snoc complete_def
          drop_call_def set_call_def Let_def pending_last
          simp del: map_of_append
          split: sum.splits prod.splits catch_outcome.splits dest: catch_block_Retry)
      done
  qed
next
  case (Suc r)
  then have k: "k < MAX_RETRIES" "Suc k + r = MAX_RETRIES" by simp_all
  show ?case
  proof (cases "cache_get (dictionaryCache s) w")
    case (Some v)
    have "map_of (pending (enter_check c w k s)) c = None"
      using Some by (simp add: enter_check_def complete_def map_of_filter_self)
    then have "run p (enter_check c w k s) (script e c w (length (fetchLog s)) (Suc r)) = enter_check c w k s"
      using touches_script by (rule run_idle)
    then show ?thesis
      using Some by (simp add: enter_check_def complete_def drop_call_def checkDictionaryAPI.simps [of e w k s])
  next
    case None
    let ?t0 = "set_call c (w, k, Fetching) (issued w s)"
    let ?out = "awaitFetch e (length (fetchLog s)) w"
    have e0: "enter_check c w k s = ?t0"
      using None by (simp add: enter_check_def issued_def)
    show ?thesis
    proof (cases "\<exists>err resp. process_response ?out = Inl (err, resp) \<and> catch_block err resp k = Retry")
      case False
      have done1: "map_of (pending (settle c ?out ?t0)) c = None"
        using False Suc.prems(1)
        by (auto simp: settle_def map_of_others_snoc complete_def map_of_filter_self
            simp del: map_of_append
            split: sum.splits prod.splits catch_outcome.splits)
      have "run p ?t0 (script e c w (length (fetchLog s)) (Suc r)) = settle c ?out ?t0"
        using run_idle [OF done1, of "Wake c # script e c w (Suc (length (fetchLog s))) r" p]
          touches_script [of c e w "Suc (length (fetchLog s))" r]
        by (simp add: run_Cons touches_def)
      then show ?thesis
        using False None Suc.prems(1)
        apply (subst checkDictionaryAPI.simps)
        apply (subst (2) checkDictionaryAPI.simps)
        apply (auto simp: e0 settle_def map_of_others_snoc complete_def
          drop_call_def set_call_def issued_def Let_def pending_last
          simp del: map_of_append
          split: sum.splits prod.splits catch_outcome.splits)
        done
    next
      case True
      then obtain err resp where pr: "process_response ?out = Inl (err, resp)"
        and cb: "catch_block err resp k = Retry" by blast
      let ?seq = "(issued w s)\<lparr> sleepLog := sleepLog s @ [RETRY_DELAY_MS] \<rparr>"
      let ?t1 = "?seq\<lparr> pending := filter (\<lambda>x. fst x \<noteq> c) (pending s) @ [(c, w, k, Sleeping)] \<rparr>"
      have s1: "settle c ?out ?t0 = ?t1"
        using pr cb Suc.prems(1)
        by (simp add: settle_def map_of_others_snoc set_call_def issued_def pending_last
            del: map_of_append)
      have w1: "wake c ?t1 = enter_check c w (Suc k) ?t1"
        by (simp add: wake_def map_of_others_snoc del: map_of_append)
      have ab: "c \<notin> set (aborted ?t1)" using Suc.prems(1) by (simp add: issued_def)
      have len: "length (fetchLog ?t1) = Suc (length (fetchLog s))" by simp
      have "run p ?t0 (script e c w (length (fetchLog s)) (Suc r))
          = run p (enter_check c w (Suc k) ?t1) (script e c w (length (fetchLog ?t1)) r)"
        by (simp add: run_Cons s1 w1)
      also have "\<dots> = finally_block (apply_result w (fst (checkDictionaryAPI e w (Suc k) ?t1))
           ((snd (checkDictionaryAPI e w (Suc k) ?t1))\<lparr> pending := filter (\<lambda>x. fst x \<noteq> c) (pending ?t1) \<rparr>))"
        using ab k(2) by (rule Suc.IH)
      also have "\<dots> = finally_block (apply_result w (fst (checkDictionaryAPI e w (Suc k) ?seq))
           ((snd (checkDictionaryAPI e w (Suc k) ?seq))\<lparr> pending := filter (\<lambda>x. fst x \<noteq> c) (pending s) \<rparr>))"
        by (simp add: checkDictionaryAPI_pending)
      also have "checkDictionaryAPI e w (Suc k) ?seq = checkDictionaryAPI e w k s"
        using None pr cb
        by (subst (2) checkDictionaryAPI.simps) (simp add: Let_def issued_def)
      finally show ?thesis by (simp add: e0)
    qed
  qed
qed


lemma filter_others_id:
  "c \<notin> fst ` set xs \<Longrightarrow> filter (\<lambda>x. fst x \<noteq> c) xs = xs"
  by (induction xs) auto

lemma begin_validation_aborted:
  "c \<notin> set (aborted s) \<Longrightarrow> abortControllerRef s \<noteq> Some c \<Longrightarrow> c \<notin> set (aborted (begin_validation s))"
  by (auto simp: begin_validation_def Let_def split: option.split)

theorem validateWord_as_events:
  assumes "nextController s \<notin> set (aborted s)"
    and "nextController s \<notin> fst ` set (pending s)"
    and "abortControllerRef s \<noteq> Some (nextController s)"
  shows "run p s (Submit word
           # script e (nextController s) (toLowerCase (trim word)) (length (fetchLog s)) MAX_RETRIES)
         = validateWord p e word s"
proof -
  let ?c = "nextController s" and ?w = "toLowerCase (trim word)"
  let ?s1 = "(begin_validation s)\<lparr> isValidating := True \<rparr>"
  let ?evs = "script e ?c ?w (length (fetchLog s)) MAX_RETRIES"
  show ?thesis
  proof (cases "first_failure (validationChecks p (foundWords s) ?w)")
    case (Some msg)
    have "map_of (pending (reject_local msg (begin_validation s))) ?c = None"
      using assms(2) by (simp add: map_of_eq_None_iff)
    then have "run p (reject_local msg (begin_validation s)) ?evs = reject_local msg (begin_validation s)"
      using touches_script by (rule run_idle)
    then show ?thesis
      using Some by (simp add: run_Cons submit_def validateWord_def Let_def)
  next
    case None
    have ab: "?c \<notin> set (aborted ?s1)"
      using begin_validation_aborted [OF assms(1,3)] by simp
    have "run p (enter_check ?c ?w 0 ?s1) (script e ?c ?w (length (fetchLog ?s1)) MAX_RETRIES)
        = finally_block (apply_result ?w (fst (checkDictionaryAPI e ?w 0 ?s1))
           ((snd (checkDictionaryAPI e ?w 0 ?s1))\<lparr> pending := filter (\<lambda>x. fst x \<noteq> ?c) (pending ?s1) \<rparr>))"
      using ab by (rule drive) simp
    moreover have "filter (\<lambda>x. fst x \<noteq> ?c) (pending ?s1) = pending (snd (checkDictionaryAPI e ?w 0 ?s1))"
      using checkDictionaryAPI_frame [of e ?w 0 ?s1] assms(2) by (simp add: filter_others_id)
    ultimately show ?thesis
      using None by (simp add: run_Cons submit_def validateWord_def Let_def split: prod.split)
  qed
qed

section \<open>Controllers are numbered in order\<close>

lemma wf_initial: "wf initial"
  by (simp add: wf_def initial_def)

lemma wf_fresh:
  assumes "wf s"
  shows "nextController s \<notin> set (aborted s)" "nextController s \<notin> fst ` set (pending s)"
    "abortControllerRef s \<noteq> Some (nextController s)"
  using assms by (auto simp: wf_def list_all_iff split: option.splits)

lemma wf_pending: "wf s \<Longrightarrow> map_of (pending s) c = Some x \<Longrightarrow> c < nextController s"
  by (auto simp: wf_def list_all_iff dest!: map_of_SomeD)

lemma wf_begin_validation: "wf s \<Longrightarrow> wf (begin_validation s)"
  by (auto simp: wf_def begin_validation_def Let_def list_all_iff split: option.splits)

lemma wf_complete: "wf s \<Longrightarrow> wf (complete c w r s)"
  by (auto simp: wf_def complete_def finally_block_def list_all_iff)

lemma wf_set_call: "wf s \<Longrightarrow> c < nextController s \<Longrightarrow> wf (set_call c x s)"
  by (auto simp: wf_def set_call_def list_all_iff)

lemma wf_update:
  "wf (s\<lparr> dictionaryCache := a \<rparr>) = wf s"
  "wf (s\<lparr> fetchLog := b \<rparr>) = wf s"
  "wf (s\<lparr> sleepLog := d \<rparr>) = wf s"
  "wf (s\<lparr> isValidating := v \<rparr>) = wf s"
  by (simp_all add: wf_def)

lemma wf_enter_check: "wf s \<Longrightarrow> c < nextController s \<Longrightarrow> wf (enter_check c w k s)"
  by (simp add: enter_check_def wf_complete wf_set_call wf_update split: option.split)

lemma wf_reject_local: "wf s \<Longrightarrow> wf (reject_local m s)"
  by (simp add: wf_def reject_local_def trackEvent_def)

lemma wf_step: "wf s \<Longrightarrow> wf (step p s ev)"
proof (cases ev)
  case (Submit word)
  assume "wf s"
  then have "wf ((begin_validation s)\<lparr> isValidating := True \<rparr>)"
    by (simp add: wf_update wf_begin_validation)
  then have "wf (enter_check (nextController s) w 0 ((begin_validation s)\<lparr> isValidating := True \<rparr>))" for w
    by (rule wf_enter_check) simp
  then show ?thesis
    using \<open>wf s\<close> Submit
    by (simp add: submit_def Let_def wf_reject_local wf_begin_validation split: option.split)
next
  case (Settle c outcome)
  assume w: "wf s"
  have sl: "wf (set_call c x (s\<lparr> sleepLog := d \<rparr>))" if "map_of (pending s) c = Some y" for x d y
    using wf_pending [OF w that] w by (intro wf_set_call) (simp_all add: wf_update)
  show ?thesis
    unfolding Settle step.simps settle_def
    using w sl
    by (auto simp: wf_complete wf_update
        split: option.split prod.split phase.split sum.split catch_outcome.split)
next
  case (Wake c)
  assume w: "wf s"
  have "wf (enter_check c x k s)" if "map_of (pending s) c = Some y" for x k y
    using wf_pending [OF w that] w by (intro wf_enter_check)
  then show ?thesis
    unfolding Wake step.simps wake_def
    using w by (auto split: option.split prod.split phase.split)
qed

lemma wf_run: "wf s \<Longrightarrow> wf (run p s evs)"
  by (induction evs arbitrary: s) (simp_all add: run_def wf_step)

text \<open>
  On every state the events can reach from the initial one, a call of \<open>validateWord\<close>
  run to completion is the run of its events.
\<close>

lemma validateWord_is_run:
  assumes "wf s"
  shows "validateWord p e word s
       = run p s (Submit word
           # script e (nextController s) (toLowerCase (trim word)) (length (fetchLog s)) MAX_RETRIES)"
  using validateWord_as_events [OF wf_fresh [OF assms]] by simp

lemma wf_validateWord: "wf s \<Longrightarrow> wf (validateWord p e word s)"
  by (simp add: validateWord_is_run wf_run)


section \<open>The cache within its limit\<close>

lemma keys_cache_set: "fst ` set (cache_set w v c) = insert w (fst ` set c)"
proof (induction c)
  case Nil
  then show ?case by simp
next
  case (Cons x c)
  then show ?case by (cases x) (auto simp: insert_commute)
qed

lemma distinct_cache_set: "distinct (map fst c) \<Longrightarrow> distinct (map fst (cache_set w v c))"
  by (induction c) (auto simp: keys_cache_set)

lemma length_cache_set: "length (cache_set w v c) \<le> Suc (length c)"
  by (induction c) auto

lemma evict_bounded:
  assumes "bounded c"
  shows "bounded (evict c)" and "length (evict c) < CACHE_SIZE_LIMIT"
proof -
  show "bounded (evict c)"
    using assms
    by (auto simp: bounded_def evict_def cache_delete_def distinct_map_filter
        intro: le_trans [OF length_filter_le] split: list.split)
  show "length (evict c) < CACHE_SIZE_LIMIT"
  proof (cases "CACHE_SIZE_LIMIT \<le> length c")
    case False
    then show ?thesis by (simp add: evict_def)
  next
    case True
    then obtain k v rest where c: "c = (k, v) # rest"
      by (cases c) (auto simp: CACHE_SIZE_LIMIT_def)
    have "k \<noteq> []" "k \<notin> fst ` set rest" "length rest < CACHE_SIZE_LIMIT"
      using assms by (auto simp: bounded_def c)
    then show ?thesis
      using True by (simp add: c evict_full)
  qed
qed

lemma push_bounded:
  assumes "bounded c" and "w \<noteq> []"
  shows "bounded (cache_set w v (evict c))"
  using evict_bounded [OF assms(1)] assms(2) length_cache_set [of w v "evict c"]
  by (auto simp: bounded_def keys_cache_set distinct_cache_set)

text \<open>
  As long as no key is the empty string, a check leaves the cache within its limit.
\<close>

lemma checkDictionaryAPI_bounded:
  "bounded (dictionaryCache s) \<Longrightarrow> w \<noteq> [] \<Longrightarrow>
     bounded (dictionaryCache (snd (checkDictionaryAPI e w k s)))"
proof (induction e w k s rule: checkDictionaryAPI.induct)
  case (1 e word retryCount s)
  show ?case
    apply (subst checkDictionaryAPI.simps)
    using "1.IH" "1.prems" evict_bounded(1) [of "dictionaryCache s"]
      push_bounded [of "dictionaryCache s" word]
    apply (auto simp: Let_def split: option.splits sum.splits catch_outcome.splits prod.splits)
    done
qed

lemma validateWord_bounded:
  assumes "bounded (dictionaryCache s)" and "1 \<le> minWordLength p"
  shows "bounded (dictionaryCache (validateWord p e word s))"
proof (cases "first_failure (validationChecks p (foundWords s) (toLowerCase (trim word)))")
  case (Some msg)
  then show ?thesis using assms(1) by (simp add: validateWord_def Let_def)
next
  case None
  then have "toLowerCase (trim word) \<noteq> []"
    using assms(2) by (auto simp: validationChecks_def split: if_splits)
  from checkDictionaryAPI_bounded [OF _ this, of "(begin_validation s)\<lparr> isValidating := True \<rparr>" e 0]
  have "bounded (dictionaryCache (snd (checkDictionaryAPI e (toLowerCase (trim word)) 0
      ((begin_validation s)\<lparr> isValidating := True \<rparr>))))"
    using assms(1) by simp
  then show ?thesis
    using None by (simp add: validateWord_def Let_def split_beta)
qed

section \<open>C1: at most one request in flight\<close>

text \<open>
  Claim C1: at most one remote dictionary request is in flight at any time; a new call of
  \<open>validateWord\<close> cancels the request of the prior call before it issues its own.

  The code does not keep this. Three calls are made, for \<open>aaaa\<close>, \<open>aaab\<close> and \<open>aaac\<close>.
  The second aborts the first. When the first call's aborted fetch rejects, its
  \<open>finally\<close> block sets \<open>abortControllerRef.current = null\<close> (line 457), though the ref
  now holds the controller of the second call. The third call finds the ref empty and
  aborts nothing (line 352): the requests of the second and the third call are both in
  flight, neither is aborted, and both results are applied.
\<close>

theorem C1_two_requests_in_flight:
  "abortControllerRef (run defaultProps initial
      [Submit ''aaaa'', Submit ''aaab'', Settle 0 (Inl abortError)]) = None
   \<and> inFlight (run defaultProps initial
      [Submit ''aaaa'', Submit ''aaab'', Settle 0 (Inl abortError)]) = [1]
   \<and> inFlight (run defaultProps initial
      [Submit ''aaaa'', Submit ''aaab'', Settle 0 (Inl abortError), Submit ''aaac'']) = [1, 2]
   \<and> aborted (run defaultProps initial
      [Submit ''aaaa'', Submit ''aaab'', Settle 0 (Inl abortError), Submit ''aaac'']) = [0]
   \<and> foundWords (run defaultProps initial
      [Submit ''aaaa'', Submit ''aaab'', Settle 0 (Inl abortError), Submit ''aaac'',
       Settle 1 (Inr (okResponse [Some ''aaab''])), Settle 2 (Inr (okResponse [Some ''aaac'']))])
      = [''aaab'', ''aaac'']"
  by code_simp

section \<open>C2: a superseded submission\<close>

text \<open>
  A call that awaits its fetch when the next call begins (its controller is the one the
  ref holds) is aborted by the next call, and then, whatever happens in between and
  whatever the network delivers, the settling of that fetch ends the call and applies
  nothing: the aborted fetch rejects with an \<open>AbortError\<close>, which both catch blocks pass
  over.
\<close>

lemma cancelled_fetch_applies_nothing:
  assumes "wf s" and "abortControllerRef s = Some c"
    and "map_of (pending s) c = Some (w, k, Fetching)"
    and "list_all (\<lambda>ev. \<not> settles c ev) evs"
  shows "let s1 = run p (submit p word s) evs; s2 = settle c outcome s1 in
           c \<in> set (aborted s1)
         \<and> foundWords s2 = foundWords s1 \<and> errorMessage s2 = errorMessage s1
         \<and> tracked s2 = tracked s1 \<and> dictionaryCache s2 = dictionaryCache s1
         \<and> map_of (pending s2) c = None"
proof -
  have lt: "c < nextController s"
    using assms(1,3) by (rule wf_pending)
  have a: "map_of (pending (submit p word s)) c = Some (w, k, Fetching)"
    "c \<in> set (aborted (submit p word s))" "c < nextController (submit p word s)"
    using submit_keeps [OF assms(3) lt, of p word] assms(2) lt by auto
  from run_keeps [OF a assms(4), of p]
  have b: "map_of (pending (run p (submit p word s) evs)) c = Some (w, k, Fetching)"
    "c \<in> set (aborted (run p (submit p word s) evs))" by auto
  show ?thesis
    using b by (simp add: Let_def settle_aborted [OF b] map_of_filter_self)
qed

text \<open>
  Claim C2: the result of a superseded call is never applied, because the cancellation
  signal is checked before any side effect.

  The code does not keep this: it checks no cancellation signal anywhere, and relies on
  the aborted fetch rejecting. A superseded call that is not awaiting a fetch escapes.
  \<open>cabbage\<close> is submitted and its fetch fails with a network error, so the call waits for
  its retry delay. \<open>cabbage\<close> is submitted again: the first call's controller is aborted,
  the second call finds the word, caches it and appends it. When the delay of the first
  call ends, its retry finds the word in the cache (line 239) and returns \<open>true\<close> without
  a fetch, and the superseded call appends the word a second time, past the duplicate
  rule.
\<close>

theorem C2_superseded_call_applies_cached_result:
  "aborted (run defaultProps initial
      [Submit ''cabbage'', Settle 0 (Inl failedToFetch), Submit ''cabbage'',
       Settle 1 (Inr (okResponse [Some ''cabbage'']))]) = [0]
   \<and> pending (run defaultProps initial
      [Submit ''cabbage'', Settle 0 (Inl failedToFetch), Submit ''cabbage'',
       Settle 1 (Inr (okResponse [Some ''cabbage'']))]) = [(0, ''cabbage'', 0, Sleeping)]
   \<and> foundWords (run defaultProps initial
      [Submit ''cabbage'', Settle 0 (Inl failedToFetch), Submit ''cabbage'',
       Settle 1 (Inr (okResponse [Some ''cabbage'']))]) = [''cabbage'']
   \<and> foundWords (run defaultProps initial
      [Submit ''cabbage'', Settle 0 (Inl failedToFetch), Submit ''cabbage'',
       Settle 1 (Inr (okResponse [Some ''cabbage''])), Wake 0]) = [''cabbage'', ''cabbage'']
   \<and> fetchLog (run defaultProps initial
      [Submit ''cabbage'', Settle 0 (Inl failedToFetch), Submit ''cabbage'',
       Settle 1 (Inr (okResponse [Some ''cabbage''])), Wake 0]) = [''cabbage'', ''cabbage'']"
  by code_simp

section \<open>C3: progress\<close>

text \<open>
  Claim C3, as amended: progress is never negative and never decreases, neither over a
  call of \<open>validateWord\<close> nor over any event of interleaved calls; it is 0 when the puzzle
  has no valid words; it is at most 1 as long as no more words were found than the
  puzzle lists, and above 1 once more were found (the validator accepts every dictionary
  word with the center letter, listed by the puzzle or not).
\<close>

theorem C3_progress:
  "0 \<le> progress (foundWords s) pd
   \<and> progress (foundWords s) pd \<le> progress (foundWords (validateWord p e word s)) pd
   \<and> progress (foundWords s) pd \<le> progress (foundWords (step p s ev)) pd
   \<and> (validWords puzzle = [] \<longrightarrow> progress (foundWords s) (Some puzzle) = 0)
   \<and> (length (foundWords s) \<le> length (validWords puzzle) \<longrightarrow>
        progress (foundWords s) (Some puzzle) \<le> 1)
   \<and> (validWords puzzle \<noteq> [] \<and> length (validWords puzzle) < length (foundWords s) \<longrightarrow>
        1 < progress (foundWords s) (Some puzzle))"
proof -
  have a: "0 \<le> progress (foundWords s) pd"
    by (simp add: progress_def split: option.split)
  have b: "progress (foundWords s) pd \<le> progress (foundWords (validateWord p e word s)) pd"
    using validateWord_found by (rule progress_mono)
  have c: "progress (foundWords s) pd \<le> progress (foundWords (step p s ev)) pd"
    using step_found by (rule progress_mono)
  have d: "progress (foundWords s) (Some puzzle) = 0" if "validWords puzzle = []"
    using that unfolding progress_def by simp
  have e: "length (foundWords s) \<le> length (validWords puzzle) \<longrightarrow>
        progress (foundWords s) (Some puzzle) \<le> 1"
    by (simp add: progress_def)
  have f: "validWords puzzle \<noteq> [] \<and> length (validWords puzzle) < length (foundWords s) \<longrightarrow>
        1 < progress (foundWords s) (Some puzzle)"
    by (auto simp: progress_def)
  from a b c d e f show ?thesis by blast
qed

theorem C3_witness:
  "progress (foundWords initial) (Some samplePuzzle)
     \<le> progress (foundWords (validateWord defaultProps allFound ''face'' initial)) (Some samplePuzzle)
   \<and> progress (foundWords initial) (Some (samplePuzzle\<lparr> validWords := [] \<rparr>)) = 0
   \<and> progress (foundWords (validateWord defaultProps allFound ''face'' initial)) (Some samplePuzzle) \<le> 1
   \<and> 1 < progress (foundWords (validateAll defaultProps allFound
        [''face'', ''aged'', ''badge'', ''faded'', ''cage'', ''bead'', ''fade'', ''deaf''] initial))
        (Some samplePuzzle)"
proof -
  have h1: "validWords (samplePuzzle\<lparr> validWords := [] \<rparr>) = []" by simp
  have h2: "length (foundWords (validateWord defaultProps allFound ''face'' initial))
              \<le> length (validWords samplePuzzle)"
    by code_simp
  have h3: "validWords samplePuzzle \<noteq> [] \<and> length (validWords samplePuzzle)
      < length (foundWords (validateAll defaultProps allFound
        [''face'', ''aged'', ''badge'', ''faded'', ''cage'', ''bead'', ''fade'', ''deaf''] initial))"
    by code_simp
  show ?thesis
    using C3_progress [where s = initial and pd = "Some samplePuzzle" and p = defaultProps
                         and e = allFound and word = "''face''"
                         and puzzle = "samplePuzzle\<lparr> validWords := [] \<rparr>"]
      C3_progress [where s = "validateWord defaultProps allFound ''face'' initial"
                     and puzzle = samplePuzzle]
      C3_progress [where s = "validateAll defaultProps allFound
        [''face'', ''aged'', ''badge'', ''faded'', ''cage'', ''bead'', ''fade'', ''deaf''] initial"
                     and puzzle = samplePuzzle]
      h1 h2 h3
    by blast
qed

text \<open>
  Claim C3 as stated fails: with the puzzle the server serves (7 valid words) and a
  dictionary that knows the 8 words submitted, all 8 are accepted and progress is 8/7.
\<close>

theorem C3_counterexample:
  "foundWords (validateAll defaultProps allFound
      [''face'', ''aged'', ''badge'', ''faded'', ''cage'', ''bead'', ''fade'', ''deaf''] initial)
     = [''face'', ''aged'', ''badge'', ''faded'', ''cage'', ''bead'', ''fade'', ''deaf'']
   \<and> progress (foundWords (validateAll defaultProps allFound
      [''face'', ''aged'', ''badge'', ''faded'', ''cage'', ''bead'', ''fade'', ''deaf''] initial))
      (Some samplePuzzle) = 8 / 7
   \<and> \<not> progress (foundWords (validateAll defaultProps allFound
      [''face'', ''aged'', ''badge'', ''faded'', ''cage'', ''bead'', ''fade'', ''deaf''] initial))
      (Some samplePuzzle) \<le> 1"
  by code_simp

section \<open>C4: the timeout\<close>

text \<open>
  Claim C4: every attempt gets a 5 second timeout; an attempt that has not completed by
  then is aborted, and the timeout is classified as a retryable failure.

  The code does not keep this. The timer is set to \<open>TIMEOUT_MS = 5000\<close>, but its callback
  aborts only when \<open>'abort' in options.signal\<close>, which is false of an \<open>AbortSignal\<close>: a
  fetch that takes 6 seconds is not aborted. Where the signal can be aborted, the fetch
  rejects with the reason the callback passes, \<open>new Error('timeout')\<close>, whose name is
  \<open>Error\<close>; \<open>getErrorType\<close> asks for the name \<open>AbortError\<close> and answers \<open>UNKNOWN\<close>, which
  is not retried: one fetch, no delay, and the generic message instead of
  \<open>Request timed out. Please try again.\<close>
\<close>

theorem C4_timeout_is_not_retried:
  "TIMEOUT_MS = 5000
   \<and> awaitFetch (slow False) 0 ''late'' = Inr (okResponse [Some ''late''])
   \<and> awaitFetch (slow True) 0 ''late'' = Inl (JsError ''Error'' ''timeout'')
   \<and> getErrorType (Some (JsError ''Error'' ''timeout'')) None = Inr UNKNOWN
   \<and> fst (checkDictionaryAPI (slow True) ''late'' 0 initial)
       = Inl (DictionaryAPIError UNKNOWN ''Error validating word. Please try again.'' None)
   \<and> fetchLog (snd (checkDictionaryAPI (slow True) ''late'' 0 initial)) = [''late'']
   \<and> sleepLog (snd (checkDictionaryAPI (slow True) ''late'' 0 initial)) = []
   \<and> errorMessage (validateWord defaultProps (slow True) ''late'' initial)
       = Some ''Error validating word. Please try again.''"
  by code_simp

section \<open>C5: the retry policy\<close>

text \<open>
  The retry loop, by the type \<open>getErrorType\<close> gives each failed attempt: a check whose
  attempts are typed \<open>NETWORK_ERROR\<close>, \<open>API_UNAVAILABLE\<close> or \<open>TIMEOUT\<close> is retried up to
  2 more times (3 fetches in all), with a delay of 1000 ms before each retry, and then
  throws the error of the last failure, whose message \<open>validateWord\<close> shows; a retry that
  succeeds ends the check with its value; an attempt of any other type throws at once,
  after one fetch and no delay.
\<close>

lemma retry_by_type:
  assumes "cache_get (dictionaryCache s) w = None"
  shows "let n = length (fetchLog s); rc = checkDictionaryAPI e w 0 s in
     (attemptFailure e n w = Some t0 \<and> t0 \<in> set retryable
        \<and> attemptFailure e (n + 1) w = Some t1 \<and> t1 \<in> set retryable
        \<and> attemptFailure e (n + 2) w = Some t2 \<and> t2 \<in> set retryable
      \<longrightarrow> (\<exists>c. fst rc = Inl (DictionaryAPIError t2 (getErrorMessage t2) c))
          \<and> fetchLog (snd rc) = fetchLog s @ [w, w, w]
          \<and> sleepLog (snd rc) = sleepLog s @ [1000, 1000]
          \<and> errorMessage (apply_result w (fst rc) (snd rc)) = Some (getErrorMessage t2))
   \<and> (attemptFailure e n w = Some t0 \<and> t0 \<in> set retryable
        \<and> process_response (awaitFetch e (n + 1) w) = Inr b
      \<longrightarrow> fst rc = Inr b \<and> fetchLog (snd rc) = fetchLog s @ [w, w]
          \<and> sleepLog (snd rc) = sleepLog s @ [1000])
   \<and> (attemptFailure e n w = Some t \<and> t \<notin> set retryable
      \<longrightarrow> (\<exists>c. fst rc = Inl (DictionaryAPIError t (getErrorMessage t) c))
          \<and> fetchLog (snd rc) = fetchLog s @ [w]
          \<and> sleepLog (snd rc) = sleepLog s
          \<and> errorMessage (apply_result w (fst rc) (snd rc)) = Some (getErrorMessage t))"
proof -
  define n where "n = length (fetchLog s)"
  define s1 where "s1 = (issued w s)\<lparr> sleepLog := sleepLog s @ [RETRY_DELAY_MS] \<rparr>"
  define s2 where "s2 = (issued w s1)\<lparr> sleepLog := sleepLog s1 @ [RETRY_DELAY_MS] \<rparr>"
  have m1: "cache_get (dictionaryCache s1) w = None" and l1: "length (fetchLog s1) = n + 1"
    using assms by (simp_all add: s1_def n_def cache_get_evict)
  have m2: "cache_get (dictionaryCache s2) w = None" and l2: "length (fetchLog s2) = n + 2"
    using m1 l1 by (simp_all add: s2_def cache_get_evict)
  have three: "(\<exists>c. fst (checkDictionaryAPI e w 0 s) = Inl (DictionaryAPIError t2 (getErrorMessage t2) c))
          \<and> fetchLog (snd (checkDictionaryAPI e w 0 s)) = fetchLog s @ [w, w, w]
          \<and> sleepLog (snd (checkDictionaryAPI e w 0 s)) = sleepLog s @ [1000, 1000]
          \<and> errorMessage (apply_result w (fst (checkDictionaryAPI e w 0 s))
                (snd (checkDictionaryAPI e w 0 s))) = Some (getErrorMessage t2)"
    if a0: "attemptFailure e n w = Some t0" "t0 \<in> set retryable"
      and a1: "attemptFailure e (n + 1) w = Some t1" "t1 \<in> set retryable"
      and a2: "attemptFailure e (n + 2) w = Some t2"
  proof -
    have "checkDictionaryAPI e w 0 s = checkDictionaryAPI e w (Suc 0) s1"
      using check_retry [OF assms, of e t0 0] a0 by (simp add: n_def s1_def MAX_RETRIES_def)
    also have "\<dots> = checkDictionaryAPI e w (Suc (Suc 0)) s2"
      using check_retry [OF m1, of e t1 "Suc 0"] a1 l1 by (simp add: s2_def MAX_RETRIES_def)
    finally have eq: "checkDictionaryAPI e w 0 s = checkDictionaryAPI e w (Suc (Suc 0)) s2" .
    obtain c where "checkDictionaryAPI e w (Suc (Suc 0)) s2
        = (Inl (DictionaryAPIError t2 (getErrorMessage t2) c), issued w s2)"
      using check_fail [OF m2, of e t2 "Suc (Suc 0)"] a2 l2 by (auto simp: MAX_RETRIES_def)
    with eq show ?thesis
      by (simp add: apply_result_surfaced s2_def s1_def RETRY_DELAY_MS_def)
  qed
  have two: "fst (checkDictionaryAPI e w 0 s) = Inr b
          \<and> fetchLog (snd (checkDictionaryAPI e w 0 s)) = fetchLog s @ [w, w]
          \<and> sleepLog (snd (checkDictionaryAPI e w 0 s)) = sleepLog s @ [1000]"
    if a0: "attemptFailure e n w = Some t0" "t0 \<in> set retryable"
      and a1: "process_response (awaitFetch e (n + 1) w) = Inr b"
  proof -
    have "checkDictionaryAPI e w 0 s = checkDictionaryAPI e w (Suc 0) s1"
      using check_retry [OF assms, of e t0 0] a0 by (simp add: n_def s1_def MAX_RETRIES_def)
    then show ?thesis
      using check_success [OF m1, of e b "Suc 0"] a1 l1 by (simp add: s1_def RETRY_DELAY_MS_def)
  qed
  have one: "(\<exists>c. fst (checkDictionaryAPI e w 0 s) = Inl (DictionaryAPIError t (getErrorMessage t) c))
          \<and> fetchLog (snd (checkDictionaryAPI e w 0 s)) = fetchLog s @ [w]
          \<and> sleepLog (snd (checkDictionaryAPI e w 0 s)) = sleepLog s
          \<and> errorMessage (apply_result w (fst (checkDictionaryAPI e w 0 s))
                (snd (checkDictionaryAPI e w 0 s))) = Some (getErrorMessage t)"
    if a0: "attemptFailure e n w = Some t" "t \<notin> set retryable"
  proof -
    obtain c where "checkDictionaryAPI e w 0 s
        = (Inl (DictionaryAPIError t (getErrorMessage t) c), issued w s)"
      using check_fail [OF assms, of e t 0] a0 by (auto simp: n_def)
    then show ?thesis by (simp add: apply_result_surfaced)
  qed
  show ?thesis
    unfolding Let_def n_def [symmetric]
    using three two one by blast
qed

text \<open>
  For example: a fetch that rejects with \<open>Failed to fetch\<close>, a service that answers 503
  and a fetch that rejects with an \<open>AbortError\<close> naming a timeout give three fetches and
  two delays, and the message of that type is shown; a dictionary reached at the second
  attempt answers after two fetches and one delay; a rate-limited request (status 429)
  and a body that is not an array are not retried.
\<close>

lemma retry_by_type_examples:
  "cache_get (dictionaryCache initial) ''late'' = None
   \<and> fetchLog (snd (checkDictionaryAPI offline ''late'' 0 initial)) = [''late'', ''late'', ''late'']
   \<and> sleepLog (snd (checkDictionaryAPI offline ''late'' 0 initial)) = [1000, 1000]
   \<and> errorMessage (apply_result ''late'' (fst (checkDictionaryAPI offline ''late'' 0 initial))
        (snd (checkDictionaryAPI offline ''late'' 0 initial)))
       = Some ''No internet connection. Please check your network and try again.''
   \<and> fetchLog (snd (checkDictionaryAPI (answering 503) ''late'' 0 initial))
       = [''late'', ''late'', ''late'']
   \<and> errorMessage (apply_result ''late'' (fst (checkDictionaryAPI (answering 503) ''late'' 0 initial))
        (snd (checkDictionaryAPI (answering 503) ''late'' 0 initial)))
       = Some ''Dictionary service is temporarily unavailable. Please try again later.''
   \<and> fetchLog (snd (checkDictionaryAPI timingOut ''late'' 0 initial))
       = [''late'', ''late'', ''late'']
   \<and> errorMessage (apply_result ''late'' (fst (checkDictionaryAPI timingOut ''late'' 0 initial))
        (snd (checkDictionaryAPI timingOut ''late'' 0 initial)))
       = Some ''Request timed out. Please try again.''
   \<and> fst (checkDictionaryAPI flaky ''late'' 0 initial) = Inr True
   \<and> fetchLog (snd (checkDictionaryAPI flaky ''late'' 0 initial)) = [''late'', ''late'']
   \<and> sleepLog (snd (checkDictionaryAPI flaky ''late'' 0 initial)) = [1000]
   \<and> fetchLog (snd (checkDictionaryAPI (answering 429) ''late'' 0 initial)) = [''late'']
   \<and> sleepLog (snd (checkDictionaryAPI (answering 429) ''late'' 0 initial)) = []
   \<and> errorMessage (apply_result ''late'' (fst (checkDictionaryAPI (answering 429) ''late'' 0 initial))
        (snd (checkDictionaryAPI (answering 429) ''late'' 0 initial)))
       = Some ''Too many requests. Please wait a moment and try again.''
   \<and> fetchLog (snd (checkDictionaryAPI malformed ''late'' 0 initial)) = [''late'']
   \<and> errorMessage (apply_result ''late'' (fst (checkDictionaryAPI malformed ''late'' 0 initial))
        (snd (checkDictionaryAPI malformed ''late'' 0 initial)))
       = Some ''Received invalid data. Please try again.''"
proof -
  have m: "cache_get (dictionaryCache initial) ''late'' = None" by code_simp
  have i: "length (fetchLog initial) = 0" "fetchLog initial = []" "sleepLog initial = []"
    by (simp_all add: initial_def)
  have r: "NETWORK_ERROR \<in> set retryable" "API_UNAVAILABLE \<in> set retryable"
    "TIMEOUT \<in> set retryable" "API_RATE_LIMIT \<notin> set retryable"
    "INVALID_RESPONSE \<notin> set retryable"
    by code_simp+
  have off: "attemptFailure offline 0 ''late'' = Some NETWORK_ERROR"
    "attemptFailure offline (Suc 0) ''late'' = Some NETWORK_ERROR"
    "attemptFailure offline (Suc (Suc 0)) ''late'' = Some NETWORK_ERROR"
    by code_simp+
  have una: "attemptFailure (answering 503) 0 ''late'' = Some API_UNAVAILABLE"
    "attemptFailure (answering 503) (Suc 0) ''late'' = Some API_UNAVAILABLE"
    "attemptFailure (answering 503) (Suc (Suc 0)) ''late'' = Some API_UNAVAILABLE"
    by code_simp+
  have tmo: "attemptFailure timingOut 0 ''late'' = Some TIMEOUT"
    "attemptFailure timingOut (Suc 0) ''late'' = Some TIMEOUT"
    "attemptFailure timingOut (Suc (Suc 0)) ''late'' = Some TIMEOUT"
    by code_simp+
  have fl: "attemptFailure flaky 0 ''late'' = Some NETWORK_ERROR"
    "process_response (awaitFetch flaky (Suc 0) ''late'') = Inr True"
    by code_simp+
  have rl: "attemptFailure (answering 429) 0 ''late'' = Some API_RATE_LIMIT"
    by code_simp
  have mal: "attemptFailure malformed 0 ''late'' = Some INVALID_RESPONSE"
    by code_simp
  have a: "fetchLog (snd (checkDictionaryAPI offline ''late'' 0 initial)) = [''late'', ''late'', ''late'']
   \<and> sleepLog (snd (checkDictionaryAPI offline ''late'' 0 initial)) = [1000, 1000]
   \<and> errorMessage (apply_result ''late'' (fst (checkDictionaryAPI offline ''late'' 0 initial))
        (snd (checkDictionaryAPI offline ''late'' 0 initial)))
       = Some ''No internet connection. Please check your network and try again.''"
    using retry_by_type [OF m, where e = offline and ?t0.0 = NETWORK_ERROR
        and ?t1.0 = NETWORK_ERROR and ?t2.0 = NETWORK_ERROR] off r
    by (simp add: Let_def i)
  have a2: "fetchLog (snd (checkDictionaryAPI (answering 503) ''late'' 0 initial))
       = [''late'', ''late'', ''late'']
   \<and> errorMessage (apply_result ''late'' (fst (checkDictionaryAPI (answering 503) ''late'' 0 initial))
        (snd (checkDictionaryAPI (answering 503) ''late'' 0 initial)))
       = Some ''Dictionary service is temporarily unavailable. Please try again later.''"
    using retry_by_type [OF m, where e = "answering 503" and ?t0.0 = API_UNAVAILABLE
        and ?t1.0 = API_UNAVAILABLE and ?t2.0 = API_UNAVAILABLE] una r
    by (simp add: Let_def i)
  have a3: "fetchLog (snd (checkDictionaryAPI timingOut ''late'' 0 initial))
       = [''late'', ''late'', ''late'']
   \<and> errorMessage (apply_result ''late'' (fst (checkDictionaryAPI timingOut ''late'' 0 initial))
        (snd (checkDictionaryAPI timingOut ''late'' 0 initial)))
       = Some ''Request timed out. Please try again.''"
    using retry_by_type [OF m, where e = timingOut and ?t0.0 = TIMEOUT
        and ?t1.0 = TIMEOUT and ?t2.0 = TIMEOUT] tmo r
    by (simp add: Let_def i)
  have b: "fst (checkDictionaryAPI flaky ''late'' 0 initial) = Inr True
   \<and> fetchLog (snd (checkDictionaryAPI flaky ''late'' 0 initial)) = [''late'', ''late'']
   \<and> sleepLog (snd (checkDictionaryAPI flaky ''late'' 0 initial)) = [1000]"
    using retry_by_type [OF m, where e = flaky and ?t0.0 = NETWORK_ERROR and b = True] fl r
    by (simp add: Let_def i)
  have c: "fetchLog (snd (checkDictionaryAPI (answering 429) ''late'' 0 initial)) = [''late'']
   \<and> sleepLog (snd (checkDictionaryAPI (answering 429) ''late'' 0 initial)) = []
   \<and> errorMessage (apply_result ''late'' (fst (checkDictionaryAPI (answering 429) ''late'' 0 initial))
        (snd (checkDictionaryAPI (answering 429) ''late'' 0 initial)))
       = Some ''Too many requests. Please wait a moment and try again.''"
    using retry_by_type [OF m, where e = "answering 429" and t = API_RATE_LIMIT] rl r
    by (simp add: Let_def i)
  have d: "fetchLog (snd (checkDictionaryAPI malformed ''late'' 0 initial)) = [''late'']
   \<and> errorMessage (apply_result ''late'' (fst (checkDictionaryAPI malformed ''late'' 0 initial))
        (snd (checkDictionaryAPI malformed ''late'' 0 initial)))
       = Some ''Received invalid data. Please try again.''"
    using retry_by_type [OF m, where e = malformed and t = INVALID_RESPONSE] mal r
    by (simp add: Let_def i)
  from m a a2 a3 b c d show ?thesis by simp
qed

text \<open>
  Claim C5: a remote check that fails with a transient network failure, an unavailable
  service or a timeout is retried up to 2 more times (3 fetches in all) with a delay of
  1 second, and then the error of that kind is shown; other failures are not retried.

  The code does not keep this for network failures and timeouts. \<open>getErrorType\<close> takes a
  rejected fetch for a network failure only when the message of the \<open>TypeError\<close>
  includes \<open>fetch\<close> (line 144). The hook's own retry tests reject with
  \<open>new TypeError('Network error')\<close> and expect 3 fetches and the message \<open>No internet
  connection\<close>, or 2 fetches and the word accepted when the second fetch succeeds; the
  code types that failure \<open>UNKNOWN\<close>, as it does Safari's \<open>Load failed\<close>, fetches once,
  waits for nothing and shows the generic message. A fetch that takes 6 seconds, where
  the timer can abort it, is typed \<open>UNKNOWN\<close> too and fetched once.
\<close>

theorem C5_network_failure_is_not_retried:
  "getErrorType (Some networkError) None = Inr UNKNOWN
   \<and> getErrorType (Some (JsError ''TypeError'' ''Load failed'')) None = Inr UNKNOWN
   \<and> UNKNOWN \<notin> set retryable
   \<and> MAX_RETRIES = 2
   \<and> fst (checkDictionaryAPI unreachable ''fail'' 0 initial)
       = Inl (DictionaryAPIError UNKNOWN ''Error validating word. Please try again.'' None)
   \<and> fetchLog (snd (checkDictionaryAPI unreachable ''fail'' 0 initial)) = [''fail'']
   \<and> sleepLog (snd (checkDictionaryAPI unreachable ''fail'' 0 initial)) = []
   \<and> fetchLog (validateWord defaultProps unreachable ''fail'' initial) = [''fail'']
   \<and> errorMessage (validateWord defaultProps unreachable ''fail'' initial)
       = Some ''Error validating word. Please try again.''
   \<and> fetchLog (validateWord defaultProps recovering ''late'' initial) = [''late'']
   \<and> sleepLog (validateWord defaultProps recovering ''late'' initial) = []
   \<and> foundWords (validateWord defaultProps recovering ''late'' initial) = []
   \<and> errorMessage (validateWord defaultProps recovering ''late'' initial)
       = Some ''Error validating word. Please try again.''
   \<and> fetchLog (validateWord defaultProps (slow True) ''late'' initial) = [''late'']
   \<and> sleepLog (validateWord defaultProps (slow True) ''late'' initial) = []"
  by code_simp

section \<open>C6: reading the response\<close>

text \<open>
  Claim C6, as amended: of a response that is \<open>ok\<close>, an array whose first element has a
  \<open>word\<close> gives \<open>true\<close>, and an empty array gives \<open>false\<close>, a value that is cached and
  tracked as an invalid word; a response with status 404 does not give \<open>false\<close>: the check
  throws a \<open>DictionaryAPIError\<close> of type \<open>WORD_NOT_FOUND\<close> after one fetch, nothing is
  cached, and \<open>validateWord\<close> shows its message and tracks an API error.
\<close>

theorem C6_response_interpretation:
  assumes "cache_get (dictionaryCache s) w = None"
    and "awaitFetch e (length (fetchLog s)) w = Inr r"
  shows "let rc = checkDictionaryAPI e w k s in
     (ok r \<and> json_body r = Inr (JArray (Some x # d)) \<longrightarrow>
        fst rc = Inr True \<and> cache_get (dictionaryCache (snd rc)) w = Some True)
   \<and> (ok r \<and> json_body r = Inr (JArray []) \<longrightarrow>
        fst rc = Inr False \<and> cache_get (dictionaryCache (snd rc)) w = Some False
        \<and> tracked (apply_result w (fst rc) (snd rc)) =
            tracked s @ [(''Puzzle'', ''Invalid Word'', ''Not in dictionary'')])
   \<and> (\<not> ok r \<and> status r = 404 \<longrightarrow>
        fst rc = Inl (DictionaryAPIError WORD_NOT_FOUND ''Not a valid English word.'' None)
        \<and> cache_get (dictionaryCache (snd rc)) w = None
        \<and> fetchLog (snd rc) = fetchLog s @ [w] \<and> sleepLog (snd rc) = sleepLog s
        \<and> errorMessage (apply_result w (fst rc) (snd rc)) = Some ''Not a valid English word.''
        \<and> tracked (apply_result w (fst rc) (snd rc)) =
            tracked s @ [(''Puzzle'', ''API Error'', ''Not a valid English word.'')])"
proof -
  have found: "fst (checkDictionaryAPI e w k s) = Inr True
      \<and> cache_get (dictionaryCache (snd (checkDictionaryAPI e w k s))) w = Some True"
    if "ok r" "json_body r = Inr (JArray (Some x # d))"
    using check_success [OF assms(1), of e True k] assms(2) that
    by (simp add: process_response_def isValidData_def)
  have empty: "fst (checkDictionaryAPI e w k s) = Inr False
      \<and> cache_get (dictionaryCache (snd (checkDictionaryAPI e w k s))) w = Some False
      \<and> tracked (apply_result w (fst (checkDictionaryAPI e w k s)) (snd (checkDictionaryAPI e w k s))) =
            tracked s @ [(''Puzzle'', ''Invalid Word'', ''Not in dictionary'')]"
    if "ok r" "json_body r = Inr (JArray [])"
    using check_success [OF assms(1), of e False k] assms(2) that
    by (simp add: process_response_def isValidData_def apply_result_def trackEvent_def)
  have missing: "fst (checkDictionaryAPI e w k s)
          = Inl (DictionaryAPIError WORD_NOT_FOUND ''Not a valid English word.'' None)
        \<and> cache_get (dictionaryCache (snd (checkDictionaryAPI e w k s))) w = None
        \<and> fetchLog (snd (checkDictionaryAPI e w k s)) = fetchLog s @ [w]
        \<and> sleepLog (snd (checkDictionaryAPI e w k s)) = sleepLog s
        \<and> errorMessage (apply_result w (fst (checkDictionaryAPI e w k s))
              (snd (checkDictionaryAPI e w k s))) = Some ''Not a valid English word.''
        \<and> tracked (apply_result w (fst (checkDictionaryAPI e w k s)) (snd (checkDictionaryAPI e w k s))) =
            tracked s @ [(''Puzzle'', ''API Error'', ''Not a valid English word.'')]"
    if "\<not> ok r" "status r = 404"
    using check_404 [OF assms that, of k] assms(1)
    by (simp add: cache_get_evict apply_result_def trackEvent_def isPlainAbort_def isDictionaryAPIError_def)
  show ?thesis unfolding Let_def using found empty missing by blast
qed

theorem C6_witness:
  "cache_get (dictionaryCache initial) ''late'' = None
   \<and> awaitFetch allFound (length (fetchLog initial)) ''late'' = Inr (okResponse [Some ''late''])
   \<and> fst (checkDictionaryAPI allFound ''late'' 0 initial) = Inr True
   \<and> fst (checkDictionaryAPI noneFound ''late'' 0 initial) = Inr False
   \<and> cache_get (dictionaryCache (snd (checkDictionaryAPI noneFound ''late'' 0 initial))) ''late''
       = Some False
   \<and> fst (checkDictionaryAPI (answering 404) ''late'' 0 initial)
       = Inl (DictionaryAPIError WORD_NOT_FOUND ''Not a valid English word.'' None)"
proof -
  have m: "cache_get (dictionaryCache initial) ''late'' = None" by code_simp
  have f: "awaitFetch allFound (length (fetchLog initial)) ''late'' = Inr (okResponse [Some ''late''])"
    "awaitFetch noneFound (length (fetchLog initial)) ''late'' = Inr (okResponse [])"
    "awaitFetch (answering 404) (length (fetchLog initial)) ''late'' = Inr (statusResponse 404)"
    by code_simp+
  have a: "fst (checkDictionaryAPI allFound ''late'' 0 initial) = Inr True"
    using C6_response_interpretation [OF m f(1), where k = 0 and x = "''late''" and d = "[]"]
    by (simp add: Let_def okResponse_def)
  have b: "fst (checkDictionaryAPI noneFound ''late'' 0 initial) = Inr False
   \<and> cache_get (dictionaryCache (snd (checkDictionaryAPI noneFound ''late'' 0 initial))) ''late''
       = Some False"
    using C6_response_interpretation [OF m f(2), where k = 0]
    by (simp add: Let_def okResponse_def)
  have c: "fst (checkDictionaryAPI (answering 404) ''late'' 0 initial)
       = Inl (DictionaryAPIError WORD_NOT_FOUND ''Not a valid English word.'' None)"
    using C6_response_interpretation [OF m f(3), where k = 0]
    by (simp add: Let_def statusResponse_def)
  from m f(1) a b c show ?thesis by simp
qed

text \<open>
  Claim C6 as stated fails for the explicit not-found signal: a 404 is not the value
  \<open>false\<close> but a thrown error, it is not cached, and it is tracked as an API error.
\<close>

theorem C6_counterexample:
  "fst (checkDictionaryAPI (answering 404) ''late'' 0 initial)
     = Inl (DictionaryAPIError WORD_NOT_FOUND ''Not a valid English word.'' None)
   \<and> fst (checkDictionaryAPI (answering 404) ''late'' 0 initial) \<noteq> Inr False
   \<and> cache_get (dictionaryCache (snd (checkDictionaryAPI (answering 404) ''late'' 0 initial))) ''late'' = None
   \<and> tracked (validateWord defaultProps (answering 404) ''late'' initial)
       = [(''Puzzle'', ''API Error'', ''Not a valid English word.'')]"
  by code_simp

section \<open>C7: the cache round trip\<close>




section \<open>C8: the size of the cache\<close>

text \<open>
  Claim C8: the cache never holds more than \<open>CACHE_SIZE_LIMIT = 1000\<close> entries, the oldest
  entry being evicted before a new one is added.

  The code does not keep this when the oldest key is the empty string: \<open>if (firstKey)\<close>
  (line 248) is false of it, nothing is deleted, and the cache grows. With an empty
  center letter and a minimum length of 0 the empty word passes the local rules and is
  looked up first; after the 1000 fillers the cache holds 1001 entries, the empty word
  still among them.
\<close>

theorem C8_cache_grows_past_limit:
  "CACHE_SIZE_LIMIT = 1000
   \<and> fetchLog (validateAll emptyProps noneFound ([] # fillers) initial) = [] # fillers
   \<and> length (dictionaryCache (validateAll emptyProps noneFound ([] # fillers) initial)) = 1001
   \<and> cache_get (dictionaryCache (validateAll emptyProps noneFound ([] # fillers) initial)) [] = Some False"
proof -
  have p0: "plain emptyProps []" by code_simp
  have l0: "length ([] :: string) < 5" by simp
  let ?a = "validateAll emptyProps noneFound ([] # map filler [0..<999]) initial"
  let ?b = "validateWord emptyProps noneFound (filler 999) ?a"
  note a = full_cache [OF p0 l0 plain_filler_empty]
  have pf: "toLowerCase (trim (filler 999)) = filler 999"
    "first_failure (validationChecks emptyProps (foundWords ?a) (filler 999)) = None"
    using plain_filler_empty [of 999] a by (simp_all add: plain_def)
  have fresh: "cache_get (dictionaryCache ?a) (filler 999) = None"
    using last_filler_fresh [OF l0] a by simp
  note b = validateWord_noneFound [OF pf fresh]
  have "filler 999 \<notin> fst ` set (([], False) # map (\<lambda>w. (w, False)) (map filler [0..<999]))"
    using last_filler_fresh [OF l0] by (rule iffD1 [OF cache_get_None_iff])
  then have "cache_set (filler 999) False (([], False) # map (\<lambda>w. (w, False)) (map filler [0..<999]))
      = (([], False) # map (\<lambda>w. (w, False)) (map filler [0..<999])) @ [(filler 999, False)]"
    by (rule cache_set_fresh)
  then have cb: "dictionaryCache ?b
      = ([], False) # map (\<lambda>w. (w, False)) (map filler [0..<999]) @ [(filler 999, False)]"
    using b(1) a by (simp add: push_def evict_empty_key)
  have "validateAll emptyProps noneFound ([] # fillers) initial = ?b"
    using after_thousand [OF p0 l0 plain_filler_empty] .
  then show ?thesis
    using b(2) a by (simp add: cb CACHE_SIZE_LIMIT_def fillers_split cache_get_def)
qed

section \<open>C9: the local rules\<close>

text \<open>
  Claim C9: \<open>validateWord\<close> normalizes the word (trim, lower case) and applies the local
  rules in order, length, center letter, duplicate; the first rule that fails gives the
  error message, and then no fetch is called, no word is appended and the cache is left
  alone. In particular a word shorter than the minimum is rejected as too short.
\<close>

theorem C9_local_rules:
  "let w = toLowerCase (trim word); s' = validateWord p e word s in
     (int (length w) < minWordLength p \<longrightarrow>
        errorMessage s' = Some (tooShortMessage p) \<and> fetchLog s' = fetchLog s
        \<and> foundWords s' = foundWords s \<and> dictionaryCache s' = dictionaryCache s)
   \<and> (minWordLength p \<le> int (length w) \<and> \<not> str_includes w (toLowerCase (centerLetter p)) \<longrightarrow>
        errorMessage s' = Some (missingCenterMessage p) \<and> fetchLog s' = fetchLog s
        \<and> foundWords s' = foundWords s \<and> dictionaryCache s' = dictionaryCache s)
   \<and> (minWordLength p \<le> int (length w) \<and> str_includes w (toLowerCase (centerLetter p))
        \<and> list_ex (\<lambda>x. toLowerCase x = w) (foundWords s) \<longrightarrow>
        errorMessage s' = Some duplicateMessage \<and> fetchLog s' = fetchLog s
        \<and> foundWords s' = foundWords s \<and> dictionaryCache s' = dictionaryCache s)"
  by (simp add: validateWord_def validationChecks_def Let_def)

text \<open>
  The theorem at work, on the cases of the hook's tests: \<open>Cat\<close> is too short, \<open>TEST\<close>
  lacks the center letter, \<open>AbLe\<close> between blanks was found before as \<open>ABLE\<close>.
\<close>

theorem C9_witness:
  "errorMessage (validateWord defaultProps allFound ''Cat '' initial)
     = Some ''Words must be at least 4 letters long.''
   \<and> fetchLog (validateWord defaultProps allFound ''Cat '' initial) = []
   \<and> errorMessage (validateWord defaultProps allFound ''TEST'' initial)
     = Some (missingCenterMessage defaultProps)
   \<and> fetchLog (validateWord defaultProps allFound ''TEST'' initial) = []
   \<and> errorMessage (validateWord defaultProps allFound ''  AbLe  ''
        (initial\<lparr> foundWords := [''apple'', ''ABLE''] \<rparr>)) = Some ''You already found this word!''
   \<and> fetchLog (validateWord defaultProps allFound ''  AbLe  ''
        (initial\<lparr> foundWords := [''apple'', ''ABLE''] \<rparr>)) = []"
proof -
  have n1: "toLowerCase (trim ''Cat '') = ''cat''"
    and n2: "toLowerCase (trim ''TEST'') = ''test''"
    and n3: "toLowerCase (trim ''  AbLe  '') = ''able''"
    by code_simp+
  have l: "toLowerCase ''a'' = ''a''" "toLowerCase ''apple'' = ''apple''"
    "toLowerCase ''ABLE'' = ''able''"
    by code_simp+
  have a: "errorMessage (validateWord defaultProps allFound ''Cat '' initial)
       = Some ''Words must be at least 4 letters long.''
     \<and> fetchLog (validateWord defaultProps allFound ''Cat '' initial) = []"
    using C9_local_rules [of "''Cat ''" defaultProps allFound initial]
    by (simp add: Let_def n1 defaultProps_def tooShortMessage_def string_of_int_def
        string_of_nat.simps initial_def)
  have b: "errorMessage (validateWord defaultProps allFound ''TEST'' initial)
       = Some (missingCenterMessage defaultProps)
     \<and> fetchLog (validateWord defaultProps allFound ''TEST'' initial) = []"
    using C9_local_rules [of "''TEST''" defaultProps allFound initial]
    by (simp add: Let_def n2 l defaultProps_def initial_def)
  have c: "errorMessage (validateWord defaultProps allFound ''  AbLe  ''
        (initial\<lparr> foundWords := [''apple'', ''ABLE''] \<rparr>)) = Some ''You already found this word!''
     \<and> fetchLog (validateWord defaultProps allFound ''  AbLe  ''
        (initial\<lparr> foundWords := [''apple'', ''ABLE''] \<rparr>)) = []"
    using C9_local_rules [of "''  AbLe  ''" defaultProps allFound
        "initial\<lparr> foundWords := [''apple'', ''ABLE''] \<rparr>"]
    by (simp add: Let_def n3 l defaultProps_def initial_def duplicateMessage_def)
  from a b c show ?thesis by simp
qed

section \<open>C10: an empty center letter\<close>

text \<open>
  Claim C10, as amended: when \<open>centerLetter\<close> is the empty string, every word passes the
  center-letter rule (every string includes the empty string), so \<open>validateWord\<close> never
  ends with the missing-center-letter message; a word that passes the length rule goes
  on to the duplicate rule, and one that passes that too goes on to the remote check,
  whose result is applied.
\<close>

theorem C10_empty_center_letter:
  assumes "centerLetter p = []"
  shows "let w = toLowerCase (trim word); s' = validateWord p e word s;
             rc = checkDictionaryAPI e w 0 ((begin_validation s)\<lparr> isValidating := True \<rparr>) in
           str_includes w (toLowerCase (centerLetter p))
         \<and> errorMessage s' \<noteq> Some (missingCenterMessage p)
         \<and> (minWordLength p \<le> int (length w) \<and> list_ex (\<lambda>x. toLowerCase x = w) (foundWords s)
              \<longrightarrow> errorMessage s' = Some duplicateMessage)
         \<and> (minWordLength p \<le> int (length w) \<and> \<not> list_ex (\<lambda>x. toLowerCase x = w) (foundWords s)
              \<longrightarrow> s' = finally_block (apply_result w (fst rc) (snd rc)))"
proof -
  define w where "w = toLowerCase (trim word)"
  define s1 where "s1 = (begin_validation s)\<lparr> isValidating := True \<rparr>"
  obtain r s2 where rc: "checkDictionaryAPI e w 0 s1 = (r, s2)"
    by (cases "checkDictionaryAPI e w 0 s1")
  have lc: "toLowerCase (centerLetter p) = []" using assms by (simp add: toLowerCase_def)
  have em: "errorMessage s2 = None"
    using checkDictionaryAPI_frame [of e w 0 s1] rc by (simp add: s1_def)
  have short: "tooShortMessage p \<noteq> missingCenterMessage p"
    by (simp add: tooShortMessage_def missingCenter_empty [OF assms])
  have dup: "duplicateMessage \<noteq> missingCenterMessage p"
    by (simp add: duplicateMessage_def missingCenter_empty [OF assms])
  have remote: "errorMessage (apply_result w r s2) \<noteq> Some (missingCenterMessage p)"
  proof (cases r)
    case (Inl x)
    then have "fst (checkDictionaryAPI e w 0 s1) = Inl x" using rc by simp
    from checkDictionaryAPI_thrown [OF this] em assms show ?thesis
      unfolding Inl by (rule apply_result_errorMessage)
  next
    case (Inr b)
    then show ?thesis
      by (simp add: apply_result_def trackEvent_def onValidWord_def missingCenter_empty [OF assms])
  qed
  show ?thesis
    using short dup remote rc
    by (simp add: validateWord_def validationChecks_def Let_def lc w_def [symmetric]
        s1_def [symmetric])
qed

text \<open>
  The theorem at work: with no center letter, \<open>test\<close> goes to the dictionary and is
  rejected there.
\<close>

theorem C10_witness:
  "centerLetter noCenterProps = []
   \<and> errorMessage (validateWord noCenterProps noneFound ''test'' initial)
       \<noteq> Some (missingCenterMessage noCenterProps)
   \<and> errorMessage (validateWord noCenterProps noneFound ''test'' initial)
       = Some ''Not a valid English word.''
   \<and> fetchLog (validateWord noCenterProps noneFound ''test'' initial) = [''test'']"
proof -
  have h: "centerLetter noCenterProps = []" by (simp add: noCenterProps_def)
  have a: "errorMessage (validateWord noCenterProps noneFound ''test'' initial)
       \<noteq> Some (missingCenterMessage noCenterProps)"
    using C10_empty_center_letter [OF h, of "''test''" noneFound initial] by (simp add: Let_def)
  have b: "errorMessage (validateWord noCenterProps noneFound ''test'' initial)
       = Some ''Not a valid English word.''"
    "fetchLog (validateWord noCenterProps noneFound ''test'' initial) = [''test'']"
    by code_simp+
  from h a b show ?thesis by simp
qed

text \<open>
  Claim C10 as stated fails for the words that the other local rules reject: with an
  empty center letter and the default minimum length, \<open>cat\<close> is rejected as too short,
  and \<open>test\<close>, found before, as a duplicate; neither goes on to the remote check.
\<close>

theorem C10_counterexample:
  "centerLetter noCenterProps = []
   \<and> errorMessage (validateWord noCenterProps allFound ''cat'' initial)
       = Some ''Words must be at least 4 letters long.''
   \<and> fetchLog (validateWord noCenterProps allFound ''cat'' initial) = []
   \<and> errorMessage (validateWord noCenterProps allFound ''test''
        (initial\<lparr> foundWords := [''test''] \<rparr>)) = Some ''You already found this word!''
   \<and> fetchLog (validateWord noCenterProps allFound ''test''
        (initial\<lparr> foundWords := [''test''] \<rparr>)) = []"
  by code_simp

end
